theory Spec2Isabelle
  imports Main "HOL-Library.Sublist" "HOL-Library.Multiset"
begin

section \<open>Python strings\<close>

text \<open>
  Python's \<^verbatim>\<open>s.split(c)\<close> for a one-character separator: the result is never empty,
  \<^verbatim>\<open>"".split(":")\<close> is \<^verbatim>\<open>[""]\<close>.
\<close>

fun split_on :: "char \<Rightarrow> string \<Rightarrow> string list" where
  "split_on c [] = [[]]"
| "split_on c (x # xs) =
     (if x = c then [] # split_on c xs
      else (case split_on c xs of [] \<Rightarrow> [[x]] | y # ys \<Rightarrow> (x # y) # ys))"

text \<open>\<^verbatim>\<open>sep.join(parts)\<close>.\<close>

fun join_str :: "string \<Rightarrow> string list \<Rightarrow> string" where
  "join_str sep [] = []"
| "join_str sep [x] = x"
| "join_str sep (x # y # ys) = x @ sep @ join_str sep (y # ys)"

text \<open>\<^verbatim>\<open>sub in s\<close> on strings: \<open>sub\<close> occurs as a contiguous piece of \<open>s\<close>.\<close>

fun str_contains :: "string \<Rightarrow> string \<Rightarrow> bool" where
  "str_contains sub [] = (sub = [])"
| "str_contains sub (c # cs) = (prefix sub (c # cs) \<or> str_contains sub cs)"

section \<open>References\<close>

type_synonym oid = nat

text \<open>
  What the code passes to the constructor for \<^verbatim>\<open>head\<close> and \<^verbatim>\<open>tail\<close>: \<^verbatim>\<open>_from_str\<close> passes
  lists on the colon branch and \<^verbatim>\<open>None\<close> and the unsplit string on the other, \<^verbatim>\<open>build\<close>
  passes the strings \<^verbatim>\<open>__module__\<close> and \<^verbatim>\<open>__name__\<close>, \<^verbatim>\<open>add_mixins\<close> passes copies of the
  lists it holds.
\<close>

datatype segs = SNone | SStr string | SList "string list"

text \<open>
  The dataclass \<^verbatim>\<open>JGDVCodeReference\<close>. The fields \<^verbatim>\<open>head\<close> and \<^verbatim>\<open>tail\<close> come from the base
  class \<^verbatim>\<open>StructuredName\<close>, which is not in the repository: by the spec each is a sequence
  of strings. The fields \<^verbatim>\<open>_mixins\<close> and \<^verbatim>\<open>_type\<close> are \<open>u_mixins\<close> and \<open>u_type\<close>; \<^verbatim>\<open>_mixins\<close>
  has its declared type, a list of references. A live Python object is an \<open>oid\<close>, an
  address of the object store below.
\<close>

datatype ref = Ref (head: "string list") (tail: "string list") (separator: string)
  (subseparator: string) (u_mixins: "ref list") (u_type: "oid option")

datatype err_arg = AStr string | ARef ref | AType oid

text \<open>The exceptions the code raises, catches or lets through, with their arguments.\<close>

datatype error =
    NameError string
  | TypeError
  | AttributeError
  | ModuleNotFoundError
  | HostError string
  | ImportError "err_arg list"
  | DootError string
  | DootConfigError string string

text \<open>
  Modelled from the spec: the constant \<^verbatim>\<open>doot.constants.patterns.TASK_SEP\<close> belongs to the
  surrounding framework and is not in the repository. The spec calls it the reserved
  double-separator token, and the message of \<^verbatim>\<open>_from_str\<close> asks for a single colon, not a
  double one.
\<close>

definition TASK_SEP :: string where
  "TASK_SEP = ''::''"

text \<open>
  Modelled from the spec: the constant \<^verbatim>\<open>doot.constants.patterns.IMPORT_SEP\<close>, the default
  of the field \<^verbatim>\<open>separator\<close>, is not in the repository either. The spec gives the grammar
  \<^verbatim>\<open>module.path:ClassName\<close> with a single colon, as the second message of \<^verbatim>\<open>_from_str\<close> does.
\<close>

definition IMPORT_SEP :: string where
  "IMPORT_SEP = '':''"

text \<open>
  Modelled from the spec: the base class \<^verbatim>\<open>StructuredName\<close>, which declares the field
  \<^verbatim>\<open>subseparator\<close>, is not in the repository. By the spec the rendering joins each path
  with dots, so the default sub-separator is the dot.
\<close>

definition default_subseparator :: string where
  "default_subseparator = ''.''"

text \<open>
  Modelled from the spec: how the constructor of the missing base class turns an argument
  into the sequence of strings it holds. A list is the sequence itself. By the spec a
  string without a colon is built with an empty module path and the entire string as the
  attribute path, and a live object with its declared module as the module path and its
  declared name as the attribute path: \<^verbatim>\<open>None\<close> is the empty sequence, and a string is
  taken whole, as the one segment of the path.
\<close>

fun as_path :: "segs \<Rightarrow> string list" where
  "as_path SNone = []"
| "as_path (SStr s) = [s]"
| "as_path (SList l) = l"

text \<open>
  Modelled from the spec: the constructor, which the dataclass takes from the fields of the
  missing base class and of this class. It holds the two paths, and the two separators get
  their defaults, as in every constructor call of the source.
\<close>

definition mk_ref :: "segs \<Rightarrow> segs \<Rightarrow> ref list \<Rightarrow> oid option \<Rightarrow> ref" where
  "mk_ref h t ms ty = Ref (as_path h) (as_path t) IMPORT_SEP default_subseparator ms ty"

text \<open>The properties \<^verbatim>\<open>module\<close> and \<^verbatim>\<open>value\<close>, and \<^verbatim>\<open>__str__\<close>.\<close>

definition module_of :: "ref \<Rightarrow> string" where
  "module_of r = join_str (subseparator r) (head r)"

definition value_of :: "ref \<Rightarrow> string" where
  "value_of r = join_str (subseparator r) (tail r)"

definition str_of :: "ref \<Rightarrow> string" where
  "str_of r = module_of r @ separator r @ value_of r"

text \<open>
  Modelled from the spec: \<^verbatim>\<open>__eq__\<close> of the missing base class, equality of the rendered
  strings.
\<close>

definition ref_eq :: "ref \<Rightarrow> ref \<Rightarrow> bool" where
  "ref_eq a b = (str_of a = str_of b)"

text \<open>\<^verbatim>\<open>_from_str\<close>.\<close>

definition from_str :: "string \<Rightarrow> error + ref" where
  "from_str name =
     (if str_contains TASK_SEP name
      then Inl (DootError ''Code References should use a single colon, not double'')
      else if CHR '':'' \<in> set name
      then (case split_on (CHR '':'') name of
              [groupHead_r, taskHead_r] \<Rightarrow>
                Inr (mk_ref (SList (split_on (CHR ''.'') groupHead_r))
                            (SList (split_on (CHR ''.'') taskHead_r)) [] None)
            | _ \<Rightarrow>
                Inl (DootConfigError
                  (''Code ref can'' @ [CHR 0x27] @ ''t be split correctly, ensure its of the form x.y.z:ClassName'')
                  name))
      else Inr (mk_ref SNone (SStr name) [] None))"

text \<open>
  A plugin record exposes \<^verbatim>\<open>name\<close> and \<^verbatim>\<open>value\<close>; the plugins table maps a group to its
  records, and \<^verbatim>\<open>group not in plugins\<close> is the table being undefined at the group.
\<close>

record entry_point =
  ep_name :: string
  ep_value :: string

type_synonym plugins = "string \<Rightarrow> entry_point list option"

text \<open>\<^verbatim>\<open>from_alias\<close>.\<close>

definition from_alias :: "string \<Rightarrow> string \<Rightarrow> plugins \<Rightarrow> error + ref" where
  "from_alias alias group_name pl =
     (case pl group_name of
        None \<Rightarrow> from_str alias
      | Some recs \<Rightarrow>
          (case filter (\<lambda>x. ep_name x = alias) recs of
             x # xs \<Rightarrow> from_str (ep_value x)
           | [] \<Rightarrow> from_str alias))"

section \<open>The Python runtime\<close>

text \<open>
  What \<^verbatim>\<open>getattr\<close> finds under a name: an object that is there already (a module global,
  a class, a plain function), or a method to bind. Python's attribute lookup runs the
  descriptor protocol, and for a classmethod reached through its class, or a method
  reached through an instance, every access builds a new bound method object around the
  function.
\<close>

datatype attr = Plain oid | Method oid

text \<open>
  A live object, as far as the code looks at it: whether it is a class
  (\<^verbatim>\<open>isinstance(o, type)\<close>), its \<^verbatim>\<open>__name__\<close> and \<^verbatim>\<open>__module__\<close> where it has them, the
  attributes \<^verbatim>\<open>getattr\<close> finds on it, and for a class its \<^verbatim>\<open>__bases__\<close> and \<^verbatim>\<open>__mro__\<close>;
  \<open>cls\<close> is \<^verbatim>\<open>type(o)\<close>.
\<close>

record pyobj =
  is_type :: bool
  dunder_name :: "string option"
  dunder_module :: "string option"
  attrs :: "(string \<times> attr) list"
  bases :: "oid list"
  mro :: "oid list"
  cls :: oid

text \<open>
  The runtime: the object store with its next free address, the builtin \<^verbatim>\<open>type\<close> and the
  class of bound methods, what \<^verbatim>\<open>importlib.import_module\<close> does for each module name (the
  module object, or the exception it raises), and a log of the calls of
  \<^verbatim>\<open>importlib.import_module\<close> that returned. The log counts calls: Python answers a call for
  a module that is loaded already from its module table, and the call is made all the same.
\<close>

record world =
  heap :: "oid \<Rightarrow> pyobj"
  next_oid :: oid
  builtin_type :: oid
  builtin_method :: oid
  modules :: "string \<Rightarrow> error + oid"
  import_log :: "string list"

definition import_module :: "world \<Rightarrow> string \<Rightarrow> error + world \<times> oid" where
  "import_module w m =
     (case modules w m of
        Inl e \<Rightarrow> Inl e
      | Inr md \<Rightarrow> Inr (w\<lparr>import_log := import_log w @ [m]\<rparr>, md))"

text \<open>
  The bound method built around the function at \<open>f\<close>: not a class, an instance of the class
  of bound methods; its \<^verbatim>\<open>__name__\<close>, its \<^verbatim>\<open>__module__\<close> and its other attributes are those of
  the function.
\<close>

definition bound_method :: "world \<Rightarrow> oid \<Rightarrow> pyobj" where
  "bound_method w f =
     \<lparr>is_type = False,
      dunder_name = dunder_name (heap w f),
      dunder_module = dunder_module (heap w f),
      attrs = attrs (heap w f),
      bases = [], mro = [],
      cls = builtin_method w\<rparr>"

text \<open>
  \<^verbatim>\<open>getattr(ob, n)\<close>: AttributeError when the name is not found, the object found when it
  is there already, and for a method a new bound method at a fresh address, on every
  call. Attribute lookups that run other code (a property on an instance, a
  \<^verbatim>\<open>__getattr__\<close> hook) are not modelled.
\<close>

definition getattr :: "world \<Rightarrow> oid \<Rightarrow> string \<Rightarrow> error + world \<times> oid" where
  "getattr w ob n =
     (case map_of (attrs (heap w ob)) n of
        None \<Rightarrow> Inl AttributeError
      | Some (Plain v) \<Rightarrow> Inr (w, v)
      | Some (Method f) \<Rightarrow>
          (let m = next_oid w
           in Inr (w\<lparr>heap := (heap w)(m := bound_method w f), next_oid := Suc m\<rparr>, m)))"

text \<open>The loop \<^verbatim>\<open>for name in self.tail: curr = getattr(curr, name)\<close>.\<close>

fun getattr_path :: "world \<Rightarrow> oid \<Rightarrow> string list \<Rightarrow> error + world \<times> oid" where
  "getattr_path w cur [] = Inr (w, cur)"
| "getattr_path w cur (n # ns) =
     (case getattr w cur n of Inl e \<Rightarrow> Inl e | Inr (w1, v) \<Rightarrow> getattr_path w1 v ns)"

definition isinstance :: "world \<Rightarrow> oid \<Rightarrow> oid \<Rightarrow> bool" where
  "isinstance w ob t = (t \<in> set (mro (heap w (cls (heap w ob)))))"

text \<open>\<^verbatim>\<open>issubclass\<close> raises TypeError when its first argument is not a class.\<close>

definition issubclass :: "world \<Rightarrow> oid \<Rightarrow> oid \<Rightarrow> error + bool" where
  "issubclass w ob t =
     (if is_type (heap w ob) then Inr (t \<in> set (mro (heap w ob))) else Inl TypeError)"

subsection \<open>Creating a class: \<^verbatim>\<open>type(name, bases, {})\<close>\<close>

text \<open>
  The C3 merge of the method resolution order: the next class is the first head that is
  in no tail; it is removed from every list it heads; with no such head the bases are
  inconsistent.
\<close>

definition c3_candidate :: "oid list list \<Rightarrow> oid option" where
  "c3_candidate seqs = find (\<lambda>h. \<forall>s \<in> set seqs. h \<notin> set (tl s)) (map hd seqs)"

function c3_merge :: "oid list list \<Rightarrow> oid list option" where
  "c3_merge seqs =
     (let ne = filter (\<lambda>s. s \<noteq> []) seqs in
      if ne = [] then Some []
      else (case c3_candidate ne of
              None \<Rightarrow> None
            | Some h \<Rightarrow>
                (case c3_merge (map (\<lambda>s. if hd s = h then tl s else s) ne) of
                   None \<Rightarrow> None
                 | Some l \<Rightarrow> Some (h # l))))"
  by pat_completeness auto
termination
proof (relation "measure (\<lambda>seqs. sum_list (map length seqs))")
  show "wf (measure (\<lambda>seqs. sum_list (map length seqs)))"
    by simp
next
  fix seqs ne :: "oid list list" and h :: oid
  assume ne: "ne = filter (\<lambda>s. s \<noteq> []) seqs" and "ne \<noteq> []"
    and cand: "c3_candidate ne = Some h"
  let ?f = "\<lambda>s. if hd s = h then tl s else s"
  have "h \<in> set (map hd ne)"
    using cand unfolding c3_candidate_def by (auto simp: find_Some_iff)
  then obtain s0 where s0: "s0 \<in> set ne" "hd s0 = h"
    by auto
  have nonempty: "\<And>s. s \<in> set ne \<Longrightarrow> s \<noteq> []"
    using ne by auto
  have le: "\<And>s. s \<in> set ne \<Longrightarrow> length (?f s) \<le> length s"
    by simp
  have lt: "length (?f s0) < length s0"
    using s0 nonempty [of s0] by simp
  have "sum_list (map (\<lambda>s. length (?f s)) ne) < sum_list (map length ne)"
    using s0(1) le lt
  proof (induction ne)
    case Nil
    then show ?case by simp
  next
    case (Cons a as)
    show ?case
    proof (cases "a = s0")
      case True
      have "sum_list (map (\<lambda>s. length (?f s)) as) \<le> sum_list (map length as)"
        by (rule sum_list_mono) simp
      with True lt show ?thesis by simp
    next
      case False
      with Cons.prems have "s0 \<in> set as" by simp
      then have "sum_list (map (\<lambda>s. length (?f s)) as) < sum_list (map length as)"
        using Cons.IH Cons.prems by simp
      moreover have "length (?f a) \<le> length a" by simp
      ultimately show ?thesis by simp
    qed
  qed
  moreover have "sum_list (map length ne) \<le> sum_list (map length seqs)"
    unfolding ne by (induction seqs) auto
  ultimately show "(map ?f ne, seqs) \<in> measure (\<lambda>seqs. sum_list (map length seqs))"
    by (simp add: comp_def)
qed

declare c3_merge.simps [simp del]

text \<open>
  The metaclass of a new class: starting from \<^verbatim>\<open>type\<close>, the most derived of the classes of
  the bases; TypeError when two of them are unrelated.
\<close>

fun calc_metaclass :: "world \<Rightarrow> oid \<Rightarrow> oid list \<Rightarrow> error + oid" where
  "calc_metaclass w winner [] = Inr winner"
| "calc_metaclass w winner (b # bs) =
     (let t = cls (heap w b) in
      if t \<in> set (mro (heap w winner)) then calc_metaclass w winner bs
      else if winner \<in> set (mro (heap w t)) then calc_metaclass w t bs
      else Inl TypeError)"

text \<open>
  \<^verbatim>\<open>type(name, bases, {})\<close> called in the module \<^verbatim>\<open>jgdv.structs.code_ref\<close>: every base must be
  a class, no base twice, the metaclasses compatible and the C3 merge defined, else
  TypeError. The new class gets a fresh address, the given bases as its \<^verbatim>\<open>__bases__\<close>, itself
  followed by the merge as its \<^verbatim>\<open>__mro__\<close>, the calling module as its \<^verbatim>\<open>__module__\<close>, and,
  its own namespace being empty, the attributes of its ancestors in that order. Other
  refusals of the runtime (layout conflicts, final classes) are not modelled.
\<close>

definition new_type :: "world \<Rightarrow> string \<Rightarrow> oid list \<Rightarrow> error + world \<times> oid" where
  "new_type w nm bs =
     (if \<exists>b \<in> set bs. \<not> is_type (heap w b) then Inl TypeError
      else if \<not> distinct bs then Inl TypeError
      else (case calc_metaclass w (builtin_type w) bs of
              Inl e \<Rightarrow> Inl e
            | Inr meta \<Rightarrow>
                (case c3_merge (map (\<lambda>b. mro (heap w b)) bs @ [bs]) of
                   None \<Rightarrow> Inl TypeError
                 | Some l \<Rightarrow>
                     (let t = next_oid w;
                          ob = \<lparr>is_type = True,
                                dunder_name = Some nm,
                                dunder_module = Some ''jgdv.structs.code_ref'',
                                attrs = concat (map (\<lambda>u. attrs (heap w u)) l),
                                bases = bs,
                                mro = t # l,
                                cls = meta\<rparr>
                      in Inr (w\<lparr>heap := (heap w)(t := ob), next_oid := Suc t\<rparr>, t)))))"

section \<open>Resolution\<close>

text \<open>
  The first part of \<^verbatim>\<open>try_import\<close>: the cached \<^verbatim>\<open>_type\<close> when there is one, else the import
  of \<^verbatim>\<open>self.module\<close> and the walk along \<^verbatim>\<open>self.tail\<close>.
\<close>

definition resolve_target :: "world \<Rightarrow> ref \<Rightarrow> error + world \<times> oid" where
  "resolve_target w r =
     (case u_type r of
        Some t \<Rightarrow> Inr (w, t)
      | None \<Rightarrow>
          (case import_module w (module_of r) of
             Inl e \<Rightarrow> Inl e
           | Inr (w1, md) \<Rightarrow> getattr_path w1 md (tail r)))"

text \<open>
  The check against \<^verbatim>\<open>ensure\<close>, \<open>None\<close> being the default \<^verbatim>\<open>Any\<close>:
  \<^verbatim>\<open>isinstance(curr, ensure) or issubclass(curr, ensure)\<close>, the second evaluated only when the
  first is false.
\<close>

definition check_ensure :: "world \<Rightarrow> ref \<Rightarrow> oid \<Rightarrow> oid option \<Rightarrow> error + unit" where
  "check_ensure w self cur ensure =
     (case ensure of
        None \<Rightarrow> Inr ()
      | Some t \<Rightarrow>
          (if isinstance w cur t then Inr ()
           else (case issubclass w cur t of
                   Inl e \<Rightarrow> Inl e
                 | Inr b \<Rightarrow>
                     (if b then Inr ()
                      else Inl (ImportError
                        [AStr ''Imported Code Reference is not of correct type'',
                         ARef self, AType t])))))"

text \<open>
  The two handlers of \<^verbatim>\<open>try_import\<close>: ModuleNotFoundError and AttributeError are replaced
  by an ImportError carrying \<^verbatim>\<open>str(self)\<close>; everything else passes.
\<close>

definition reraise :: "ref \<Rightarrow> error + 'a \<Rightarrow> error + 'a" where
  "reraise self res =
     (case res of
        Inl ModuleNotFoundError \<Rightarrow>
          Inl (ImportError [AStr (''Module can'' @ [CHR 0x27] @ ''t be found''), AStr (str_of self)])
      | Inl AttributeError \<Rightarrow>
          Inl (ImportError [AStr ''Attempted to import %s but failed'', AStr (str_of self)])
      | _ \<Rightarrow> res)"

text \<open>
  \<^verbatim>\<open>try_import\<close>, with the loop over \<^verbatim>\<open>self._mixins\<close> as \<open>import_mixins\<close>: every mixin is a
  reference, so the loop takes the branch that calls \<^verbatim>\<open>mix.try_import()\<close>. Nothing in
  \<^verbatim>\<open>try_import\<close> assigns \<^verbatim>\<open>self._type\<close>: the reference is the same before and after, and only
  the runtime changes (the log of import calls, the bound methods and classes created).
\<close>

fun try_import :: "world \<Rightarrow> ref \<Rightarrow> oid option \<Rightarrow> error + world \<times> oid"
  and import_mixins :: "world \<Rightarrow> ref list \<Rightarrow> error + world \<times> oid list" where
  "try_import w (Ref h t sep sub ms ty) ensure =
     reraise (Ref h t sep sub ms ty)
       (case resolve_target w (Ref h t sep sub ms ty) of
          Inl e \<Rightarrow> Inl e
        | Inr (w1, cur) \<Rightarrow>
            (case (if ms \<noteq> []
                   then (case import_mixins w1 ms of
                           Inl e \<Rightarrow> Inl e
                         | Inr (w2, mixins) \<Rightarrow>
                             (case dunder_name (heap w2 cur) of
                                None \<Rightarrow> Inl AttributeError
                              | Some n \<Rightarrow> new_type w2 (''DootGenerated:'' @ n) (mixins @ [cur])))
                   else Inr (w1, cur)) of
               Inl e \<Rightarrow> Inl e
             | Inr (w3, cur') \<Rightarrow>
                 (case check_ensure w3 (Ref h t sep sub ms ty) cur' ensure of
                    Inl e \<Rightarrow> Inl e
                  | Inr u \<Rightarrow> Inr (w3, cur'))))"
| "import_mixins w [] = Inr (w, [])"
| "import_mixins w (mix # rest) =
     (case try_import w mix None of
        Inl e \<Rightarrow> Inl e
      | Inr (w1, t) \<Rightarrow>
          (case import_mixins w1 rest of
             Inl e \<Rightarrow> Inl e
           | Inr (w2, ts) \<Rightarrow> Inr (w2, t # ts)))"

section \<open>Building references\<close>

text \<open>
  The argument of \<^verbatim>\<open>build\<close>, by its annotation: a string, a class or an entry point. The
  entry-point branch evaluates \<^verbatim>\<open>ctor.load()\<close>, and \<^verbatim>\<open>ctor\<close> is bound nowhere: the parameter
  is \<^verbatim>\<open>name\<close> and the module has no global of that name. Evaluating it raises NameError
  before anything is loaded.
\<close>

datatype buildable = BStr string | BType oid | BEntryPoint entry_point

fun build :: "world \<Rightarrow> buildable \<Rightarrow> error + ref" where
  "build w (BStr name) = from_str name"
| "build w (BType name) =
     (case dunder_module (heap w name) of
        None \<Rightarrow> Inl AttributeError
      | Some groupHead \<Rightarrow>
          (case dunder_name (heap w name) of
             None \<Rightarrow> Inl AttributeError
           | Some codeHead \<Rightarrow> Inr (mk_ref (SStr groupHead) (SStr codeHead) [] (Some name))))"
| "build w (BEntryPoint name) = Inl (NameError ''ctor'')"

text \<open>
  What \<^verbatim>\<open>build\<close> was written to do for an entry point, by its sibling branch: load the
  target and build from the class. \<open>load\<close> is the entry point's \<^verbatim>\<open>load()\<close>.
\<close>

definition build_entry_point_intended ::
  "world \<Rightarrow> (entry_point \<Rightarrow> error + oid) \<Rightarrow> entry_point \<Rightarrow> error + ref" where
  "build_entry_point_intended w load ep =
     (case load ep of Inl e \<Rightarrow> Inl e | Inr loaded \<Rightarrow> build w (BType loaded))"

section \<open>Mixins\<close>

text \<open>
  \<^verbatim>\<open>ref in to_add\<close>: the list is scanned from the front and the scan stops at the first
  equal element. Python tests identity before equality; a reference that is identical
  renders the same and so is equal, and the model is the equality test alone.
\<close>

fun ref_in :: "ref \<Rightarrow> ref list \<Rightarrow> bool" where
  "ref_in x [] = False"
| "ref_in x (e # es) = (if ref_eq e x then True else ref_in x es)"

datatype mixin_arg = MRef ref | MStr string | MType oid | MOther

text \<open>The \<^verbatim>\<open>match\<close> of \<^verbatim>\<open>add_mixins\<close> on one supplied mixin.\<close>

fun mixin_ref :: "world \<Rightarrow> plugins option \<Rightarrow> mixin_arg \<Rightarrow> error + ref" where
  "mixin_ref w pl (MRef r) = Inr r"
| "mixin_ref w (Some p) (MStr s) = from_alias s ''mixin'' p"
| "mixin_ref w None (MStr s) = build w (BStr s)"
| "mixin_ref w pl (MType t) = build w (BType t)"
| "mixin_ref w pl MOther = Inl TypeError"

text \<open>The loop of \<^verbatim>\<open>add_mixins\<close> over the supplied mixins, \<open>to_add\<close> being the list it grows.\<close>

fun add_loop :: "world \<Rightarrow> plugins option \<Rightarrow> ref list \<Rightarrow> mixin_arg list \<Rightarrow> error + ref list" where
  "add_loop w pl to_add [] = Inr to_add"
| "add_loop w pl to_add (mix # rest) =
     (case mixin_ref w pl mix of
        Inl e \<Rightarrow> Inl e
      | Inr r \<Rightarrow> add_loop w pl (if ref_in r to_add then to_add else to_add @ [r]) rest)"

text \<open>
  \<^verbatim>\<open>add_mixins\<close>. The loop works on the copy \<^verbatim>\<open>self._mixins[:]\<close> and the result is a new
  object built from copies of \<^verbatim>\<open>head\<close> and \<^verbatim>\<open>tail\<close>, so \<open>self\<close> is only read.
\<close>

definition add_mixins :: "world \<Rightarrow> ref \<Rightarrow> mixin_arg list \<Rightarrow> plugins option \<Rightarrow> error + ref" where
  "add_mixins w self mixins pl =
     (case add_loop w pl (u_mixins self) mixins of
        Inl e \<Rightarrow> Inl e
      | Inr to_add \<Rightarrow>
          Inr (mk_ref (SList (head self)) (SList (tail self)) to_add (u_type self)))"

section \<open>The minimal mixin set\<close>

text \<open>The loop of \<^verbatim>\<open>_calculate_minimal_mixins\<close> with its two accumulators.\<close>

fun minimal_loop :: "world \<Rightarrow> oid set \<Rightarrow> oid list \<Rightarrow> oid list \<Rightarrow> oid list" where
  "minimal_loop w found minimal_mixins [] = minimal_mixins"
| "minimal_loop w found minimal_mixins (mixin # rest) =
     (if mixin \<in> found then minimal_loop w found minimal_mixins rest
      else minimal_loop w (found \<union> set (mro (heap w mixin))) (minimal_mixins @ [mixin]) rest)"

fun build_all :: "world \<Rightarrow> oid list \<Rightarrow> error + ref list" where
  "build_all w [] = Inr []"
| "build_all w (x # xs) =
     (case build w (BType x) of
        Inl e \<Rightarrow> Inl e
      | Inr r \<Rightarrow> (case build_all w xs of Inl e \<Rightarrow> Inl e | Inr rs \<Rightarrow> Inr (r # rs)))"

text \<open>
  \<^verbatim>\<open>_calculate_minimal_mixins\<close>: \<^verbatim>\<open>sorted\<close> first consumes the \<^verbatim>\<open>map\<close>, so every mixin is
  imported before any key is computed; a resolved mixin that is not a class has no \<^verbatim>\<open>mro\<close>.
  \<^verbatim>\<open>sorted\<close> is stable and ascending, \<^verbatim>\<open>reversed\<close> turns it round. The parameter \<^verbatim>\<open>plugins\<close> is
  not used.
\<close>

definition calculate_minimal_mixins ::
  "world \<Rightarrow> ref \<Rightarrow> plugins \<Rightarrow> error + world \<times> ref list" where
  "calculate_minimal_mixins w self pl =
     (case import_mixins w (u_mixins self) of
        Inl e \<Rightarrow> Inl e
      | Inr (w1, ts) \<Rightarrow>
          (if \<exists>x \<in> set ts. \<not> is_type (heap w1 x) then Inl AttributeError
           else (case build_all w1
                        (minimal_loop w1 {} []
                           (rev (sort_key (\<lambda>x. length (mro (heap w1 x))) ts))) of
                   Inl e \<Rightarrow> Inl e
                 | Inr refs \<Rightarrow> Inr (w1, refs))))"

section \<open>Notions of the spec\<close>

text \<open>
  The reference string the alias lookup settles on, in the words of the spec: the alias
  itself when the group is absent or holds no record of that name, else the value of the
  first record of that name.
\<close>

definition alias_target :: "plugins \<Rightarrow> string \<Rightarrow> string \<Rightarrow> string" where
  "alias_target pl group_name alias =
     (case pl group_name of
        None \<Rightarrow> alias
      | Some recs \<Rightarrow>
          (case find (\<lambda>x. ep_name x = alias) recs of
             None \<Rightarrow> alias
           | Some x \<Rightarrow> ep_value x))"

text \<open>
  The consistency of the method resolution orders of a runtime, as Python keeps it: the
  order of a class holds the class itself, holds no class twice, and holds with each of its
  classes the whole order of that class; all of them are allocated.
\<close>

definition wf_world :: "world \<Rightarrow> bool" where
  "wf_world w =
     (\<forall>t. is_type (heap w t) \<longrightarrow>
        t \<in> set (mro (heap w t)) \<and> distinct (mro (heap w t)) \<and>
        (\<forall>u \<in> set (mro (heap w t)).
           u < next_oid w \<and> is_type (heap w u) \<and>
           set (mro (heap w u)) \<subseteq> set (mro (heap w t))))"

text \<open>
  The selection in the words of the spec: the mixins are taken in the given order, one
  whose whole ancestor set lies in the ancestor set of a mixin selected before is skipped,
  the others are selected.
\<close>

fun spec_select :: "world \<Rightarrow> oid list \<Rightarrow> oid list \<Rightarrow> oid list" where
  "spec_select w selected [] = selected"
| "spec_select w selected (m # rest) =
     (if \<exists>s \<in> set selected. set (mro (heap w m)) \<subseteq> set (mro (heap w s))
      then spec_select w selected rest
      else spec_select w (selected @ [m]) rest)"

text \<open>
  The error kind the spec calls a configuration error: the class \<^verbatim>\<open>DootConfigError\<close> of the
  framework. \<^verbatim>\<open>DootError\<close> is the general class of its errors.
\<close>

fun is_config_error :: "error \<Rightarrow> bool" where
  "is_config_error (DootConfigError msg arg) = True"
| "is_config_error e = False"

section \<open>An example runtime\<close>

text \<open>
  A small runtime for the concrete instances below: \<^verbatim>\<open>type\<close> at 0 and \<^verbatim>\<open>object\<close> at 1, the
  module \<^verbatim>\<open>pkg.mod\<close> at 2 with the classes \<^verbatim>\<open>Target\<close> (3), \<^verbatim>\<open>M1\<close> (4) and \<^verbatim>\<open>M2\<close> (5, a
  subclass of \<^verbatim>\<open>M1\<close>) and the function \<^verbatim>\<open>func\<close> (6), the classes of modules (7), of
  functions (8) and of bound methods (9), and at 10 the function behind the classmethod
  \<^verbatim>\<open>Target.make\<close>. No other module can be imported, and the addresses from 11 on are free.
\<close>

definition ex_class :: "string \<Rightarrow> (string \<times> attr) list \<Rightarrow> oid list \<Rightarrow> oid list \<Rightarrow> pyobj" where
  "ex_class n ats bs m =
     \<lparr>is_type = True, dunder_name = Some n, dunder_module = Some ''pkg.mod'',
      attrs = ats, bases = bs, mro = m, cls = 0\<rparr>"

definition ex_function :: "string \<Rightarrow> pyobj" where
  "ex_function n =
     \<lparr>is_type = False, dunder_name = Some n, dunder_module = Some ''pkg.mod'',
      attrs = [], bases = [], mro = [], cls = 8\<rparr>"

definition ex_objects :: "pyobj list" where
  "ex_objects =
     [ex_class ''type'' [] [1] [0, 1],
      ex_class ''object'' [] [] [1],
      \<lparr>is_type = False, dunder_name = Some ''pkg.mod'', dunder_module = None,
       attrs = [(''Target'', Plain 3), (''M1'', Plain 4), (''M2'', Plain 5),
                (''func'', Plain 6)],
       bases = [], mro = [], cls = 7\<rparr>,
      ex_class ''Target'' [(''make'', Method 10)] [1] [3, 1],
      ex_class ''M1'' [] [1] [4, 1],
      ex_class ''M2'' [] [4] [5, 4, 1],
      ex_function ''func'',
      ex_class ''module'' [] [1] [7, 1],
      ex_class ''function'' [] [1] [8, 1],
      ex_class ''method'' [] [1] [9, 1],
      ex_function ''make'']"

definition ex_heap :: "oid \<Rightarrow> pyobj" where
  "ex_heap i =
     (if i < length ex_objects then ex_objects ! i
      else \<lparr>is_type = False, dunder_name = None, dunder_module = None,
            attrs = [], bases = [], mro = [], cls = 1\<rparr>)"

definition ex_modules :: "string \<Rightarrow> error + oid" where
  "ex_modules m = (if m = ''pkg.mod'' then Inr 2 else Inl ModuleNotFoundError)"

definition ex_world :: world where
  "ex_world =
     \<lparr>heap = ex_heap, next_oid = 11, builtin_type = 0, builtin_method = 9,
      modules = ex_modules, import_log = []\<rparr>"

text \<open>The reference to \<^verbatim>\<open>pkg.mod:Target\<close> with the mixins \<^verbatim>\<open>pkg.mod:M2\<close> and \<^verbatim>\<open>pkg.mod:M1\<close>.\<close>

definition ex_ref_mixins :: ref where
  "ex_ref_mixins =
     Ref [''pkg'', ''mod''] [''Target''] '':'' ''.''
       [Ref [''pkg'', ''mod''] [''M2''] '':'' ''.'' [] None,
        Ref [''pkg'', ''mod''] [''M1''] '':'' ''.'' [] None]
       None"

text \<open>A plugins table with the alias \<^verbatim>\<open>m\<close> in both groups, with different values.\<close>

definition ex_plugins :: plugins where
  "ex_plugins g =
     (if g = ''mixin'' then Some [\<lparr>ep_name = ''other'', ep_value = ''pkg.mod:Target''\<rparr>,
                                  \<lparr>ep_name = ''m'', ep_value = ''pkg.mod:M2''\<rparr>,
                                  \<lparr>ep_name = ''m'', ep_value = ''pkg.mod:M1''\<rparr>]
      else if g = ''mixins'' then Some [\<lparr>ep_name = ''m'', ep_value = ''pkg.mod:M1''\<rparr>]
      else None)"

definition ex_ref_target :: ref where
  "ex_ref_target = Ref [''pkg'', ''mod''] [''Target''] '':'' ''.'' [] None"

text \<open>
  Mixins supplied as a string, a class, a string that names the same class and a reference
  equal to the first, and the reference they lead to from \<open>ex_ref_target\<close>.
\<close>

definition ex_args :: "mixin_arg list" where
  "ex_args =
     [MStr ''pkg.mod:M2'', MType 4, MStr ''pkg.mod:M1'',
      MRef (Ref [''pkg'', ''mod''] [''M2''] '':'' ''.'' [] None)]"

definition ex_ref_added :: ref where
  "ex_ref_added =
     Ref [''pkg'', ''mod''] [''Target''] '':'' ''.''
       [Ref [''pkg'', ''mod''] [''M2''] '':'' ''.'' [] None,
        Ref [''pkg.mod''] [''M1''] '':'' ''.'' [] (Some 4)]
       None"

text \<open>
  The reference to \<^verbatim>\<open>pkg.mod:Target\<close> with the mixins \<^verbatim>\<open>pkg.mod:M1\<close> and \<^verbatim>\<open>pkg.mod:M2\<close>, the
  second a subclass of the first.
\<close>

definition ex_ref_two :: ref where
  "ex_ref_two =
     Ref [''pkg'', ''mod''] [''Target''] '':'' ''.''
       [Ref [''pkg'', ''mod''] [''M1''] '':'' ''.'' [] None,
        Ref [''pkg'', ''mod''] [''M2''] '':'' ''.'' [] None]
       None"

section \<open>Construction from a string\<close>

lemma split_on_not_Nil: "split_on c s \<noteq> []"
  by (induction s) (auto split: list.splits)

lemma join_split_on: "join_str [c] (split_on c s) = s"
proof (induction s)
  case Nil
  then show ?case by simp
next
  case (Cons x xs)
  obtain y ys where y: "split_on c xs = y # ys"
    using split_on_not_Nil [of c xs] by (cases "split_on c xs") auto
  show ?case
  proof (cases "x = c")
    case True
    with Cons y show ?thesis by simp
  next
    case False
    with Cons y show ?thesis by (cases ys) auto
  qed
qed

lemma split_on_absent: "c \<notin> set s \<Longrightarrow> split_on c s = [s]"
  by (induction s) auto

lemma split_on_append: "c \<notin> set a \<Longrightarrow> split_on c (a @ c # b) = a # split_on c b"
  by (induction a) auto

lemma length_split_on: "length (split_on c s) = Suc (count_list s c)"
  by (induction s) (auto split: list.splits simp: split_on_not_Nil)

lemma str_contains_colons: "str_contains ''::'' s \<Longrightarrow> 2 \<le> count_list s (CHR '':'')"
  by (induction s) (auto simp: prefix_def)

lemma one_colon_decomp:
  assumes "count_list name (CHR '':'') = 1"
  shows "name = takeWhile (\<lambda>c. c \<noteq> CHR '':'') name @ CHR '':'' # tl (dropWhile (\<lambda>c. c \<noteq> CHR '':'') name)
     \<and> CHR '':'' \<notin> set (tl (dropWhile (\<lambda>c. c \<noteq> CHR '':'') name))"
  using assms
proof (induction name)
  case Nil
  then show ?case by simp
next
  case (Cons x xs)
  then show ?case by (auto simp: count_list_0_iff split: if_splits)
qed

lemma str_of_lists:
  "str_of (Ref hs ts sep sub ms ty) = join_str sub hs @ sep @ join_str sub ts"
  by (simp add: str_of_def module_of_def value_of_def)

lemma from_str_colon:
  assumes "CHR '':'' \<notin> set a" "CHR '':'' \<notin> set b"
  shows "from_str (a @ CHR '':'' # b) =
     Inr (mk_ref (SList (split_on (CHR ''.'') a)) (SList (split_on (CHR ''.'') b)) [] None)"
proof -
  have "count_list (a @ CHR '':'' # b) (CHR '':'') = 1"
    using assms by (simp add: count_list_0_iff)
  then have "\<not> str_contains TASK_SEP (a @ CHR '':'' # b)"
    using str_contains_colons [of "a @ CHR '':'' # b"] by (auto simp: TASK_SEP_def)
  moreover have "split_on (CHR '':'') (a @ CHR '':'' # b) = [a, b]"
    using assms by (simp add: split_on_append split_on_absent)
  ultimately show ?thesis
    by (simp add: from_str_def)
qed

text \<open>
  C3. A string with exactly one colon and without the double separator is split at the
  colon; the part before it, split at the dots, becomes the module path and the part after
  it, split at the dots, the attribute path; and the rendering of the reference built is
  the input string again.
\<close>

theorem from_str_single_colon:
  assumes "count_list name (CHR '':'') = 1" and "\<not> str_contains TASK_SEP name"
  shows "from_str name =
           Inr (mk_ref (SList (split_on (CHR ''.'') (takeWhile (\<lambda>c. c \<noteq> CHR '':'') name)))
                       (SList (split_on (CHR ''.'') (tl (dropWhile (\<lambda>c. c \<noteq> CHR '':'') name))))
                       [] None)
       \<and> str_of (mk_ref (SList (split_on (CHR ''.'') (takeWhile (\<lambda>c. c \<noteq> CHR '':'') name)))
                       (SList (split_on (CHR ''.'') (tl (dropWhile (\<lambda>c. c \<noteq> CHR '':'') name))))
                       [] None) = name"
proof -
  let ?a = "takeWhile (\<lambda>c. c \<noteq> CHR '':'') name"
  let ?b = "tl (dropWhile (\<lambda>c. c \<noteq> CHR '':'') name)"
  have dec: "name = ?a @ CHR '':'' # ?b" and nb: "CHR '':'' \<notin> set ?b"
    using one_colon_decomp [OF assms(1)] by blast+
  have na: "CHR '':'' \<notin> set ?a"
    using set_takeWhileD by fastforce
  have "from_str (?a @ CHR '':'' # ?b) = Inr (mk_ref (SList (split_on (CHR ''.'') ?a)) (SList (split_on (CHR ''.'') ?b)) [] None)"
    by (rule from_str_colon [OF na nb])
  then have one: "from_str name = Inr (mk_ref (SList (split_on (CHR ''.'') ?a)) (SList (split_on (CHR ''.'') ?b)) [] None)"
    using dec by simp
  have "str_of (mk_ref (SList (split_on (CHR ''.'') ?a)) (SList (split_on (CHR ''.'') ?b)) [] None)
      = ?a @ '':'' @ ?b"
    by (simp add: mk_ref_def str_of_lists IMPORT_SEP_def default_subseparator_def join_split_on)
  with dec have two: "str_of (mk_ref (SList (split_on (CHR ''.'') ?a)) (SList (split_on (CHR ''.'') ?b)) [] None) = name"
    by simp
  from one two show ?thesis by blast
qed

theorem from_str_single_colon_witness:
  "count_list ''a.b:C.d'' (CHR '':'') = 1 \<and> \<not> str_contains TASK_SEP ''a.b:C.d''
   \<and> from_str ''a.b:C.d'' = Inr (Ref [''a'', ''b''] [''C'', ''d''] '':'' ''.'' [] None)
   \<and> str_of (Ref [''a'', ''b''] [''C'', ''d''] '':'' ''.'' [] None) = ''a.b:C.d''"
proof -
  have h1: "count_list ''a.b:C.d'' (CHR '':'') = 1" by simp
  have h2: "\<not> str_contains TASK_SEP ''a.b:C.d''" by (simp add: TASK_SEP_def)
  show ?thesis
    using h1 h2 from_str_single_colon [OF h1 h2]
    by (simp add: mk_ref_def IMPORT_SEP_def default_subseparator_def)
qed

text \<open>
  C4. For a string without a colon (and without the double separator) the construction
  succeeds. The code passes \<^verbatim>\<open>None\<close> for the module path and the whole unsplit string for
  the attribute path; in the reference built the module path is empty, it renders as the
  empty string, and the attribute path is the entire input string, as its one segment and
  as its rendering.
\<close>

theorem from_str_no_colon:
  assumes "CHR '':'' \<notin> set name" and "\<not> str_contains TASK_SEP name"
  shows "from_str name = Inr (mk_ref SNone (SStr name) [] None)
       \<and> (\<exists>r. from_str name = Inr r \<and> head r = [] \<and> module_of r = [] \<and> tail r = [name]
               \<and> value_of r = name \<and> str_of r = IMPORT_SEP @ name
               \<and> u_mixins r = [] \<and> u_type r = None)"
  using assms by (simp add: from_str_def mk_ref_def module_of_def value_of_def str_of_def)

theorem from_str_no_colon_witness:
  "CHR '':'' \<notin> set ''Target'' \<and> \<not> str_contains TASK_SEP ''Target''
   \<and> from_str ''Target'' = Inr (Ref [] [''Target''] '':'' ''.'' [] None)
   \<and> (\<exists>r. from_str ''Target'' = Inr r \<and> head r = [] \<and> module_of r = []
           \<and> tail r = [''Target''] \<and> value_of r = ''Target''
           \<and> str_of r = IMPORT_SEP @ ''Target'' \<and> u_mixins r = [] \<and> u_type r = None)"
proof -
  have h1: "CHR '':'' \<notin> set ''Target''" by simp
  have h2: "\<not> str_contains TASK_SEP ''Target''" by (simp add: TASK_SEP_def)
  note t = from_str_no_colon [OF h1 h2]
  from t have "from_str ''Target'' = Inr (Ref [] [''Target''] '':'' ''.'' [] None)"
    by (simp add: mk_ref_def IMPORT_SEP_def default_subseparator_def)
  with h1 h2 t show ?thesis by blast
qed

text \<open>
  C8, as amended. The construction from a string fails, and yields no reference, when the
  string contains the double separator, and when it contains a colon but the split at the
  colons does not give exactly two parts. The first failure is raised as the general
  \<^verbatim>\<open>DootError\<close> of the framework, the second as \<^verbatim>\<open>DootConfigError\<close> carrying the string.
\<close>

theorem from_str_fails:
  assumes "str_contains TASK_SEP name
           \<or> (CHR '':'' \<in> set name \<and> length (split_on (CHR '':'') name) \<noteq> 2)"
  shows "from_str name =
           Inl (if str_contains TASK_SEP name
                then DootError ''Code References should use a single colon, not double''
                else DootConfigError
                  (''Code ref can'' @ [CHR 0x27] @ ''t be split correctly, ensure its of the form x.y.z:ClassName'')
                  name)"
  using assms
  by (auto simp: from_str_def split: list.splits)

theorem from_str_fails_witness:
  "(str_contains TASK_SEP ''a.b::C''
      \<or> (CHR '':'' \<in> set ''a.b::C'' \<and> length (split_on (CHR '':'') ''a.b::C'') \<noteq> 2))
   \<and> from_str ''a.b::C'' = Inl (DootError ''Code References should use a single colon, not double'')
   \<and> (str_contains TASK_SEP ''a:b:C''
      \<or> (CHR '':'' \<in> set ''a:b:C'' \<and> length (split_on (CHR '':'') ''a:b:C'') \<noteq> 2))
   \<and> from_str ''a:b:C'' = Inl (DootConfigError
        (''Code ref can'' @ [CHR 0x27] @ ''t be split correctly, ensure its of the form x.y.z:ClassName'')
        ''a:b:C'')"
proof -
  have h1: "str_contains TASK_SEP ''a.b::C''
      \<or> (CHR '':'' \<in> set ''a.b::C'' \<and> length (split_on (CHR '':'') ''a.b::C'') \<noteq> 2)"
    by (simp add: TASK_SEP_def)
  have h2: "str_contains TASK_SEP ''a:b:C''
      \<or> (CHR '':'' \<in> set ''a:b:C'' \<and> length (split_on (CHR '':'') ''a:b:C'') \<noteq> 2)"
    by simp
  have n2: "\<not> str_contains TASK_SEP ''a:b:C''" by (simp add: TASK_SEP_def)
  have c1: "str_contains TASK_SEP ''a.b::C''" by (simp add: TASK_SEP_def)
  show ?thesis
    using h1 h2 from_str_fails [OF h1] from_str_fails [OF h2] n2 c1 by simp
qed

text \<open>
  C8 as stated fails: the claim has a configuration error in both cases. The string
  \<^verbatim>\<open>a.b::C\<close> contains the double separator, and what is raised for it is the general
  \<^verbatim>\<open>DootError\<close>, not a configuration error.
\<close>

theorem from_str_double_separator_error:
  "str_contains TASK_SEP ''a.b::C''
   \<and> from_str ''a.b::C'' = Inl (DootError ''Code References should use a single colon, not double'')
   \<and> \<not> is_config_error (DootError ''Code References should use a single colon, not double'')"
  by (simp add: from_str_def TASK_SEP_def)

section \<open>Resolution and construction from live objects\<close>

lemma reraise_Inr: "reraise r x = Inr v \<longleftrightarrow> x = Inr v"
  by (cases x; simp add: reraise_def split: error.splits sum.splits)

lemma import_module_Inr:
  "import_module w m = Inr (w1, md) \<longleftrightarrow>
     modules w m = Inr md \<and> w1 = w\<lparr>import_log := import_log w @ [m]\<rparr>"
  by (auto simp: import_module_def split: sum.splits)

lemma getattr_Inr:
  assumes "getattr w ob n = Inr (w', v)"
  shows "(w' = w \<and> map_of (attrs (heap w ob)) n = Some (Plain v))
     \<or> (\<exists>f. map_of (attrs (heap w ob)) n = Some (Method f) \<and> v = next_oid w
           \<and> w' = w\<lparr>heap := (heap w)(next_oid w := bound_method w f),
                     next_oid := Suc (next_oid w)\<rparr>)"
  using assms by (auto simp: getattr_def Let_def split: option.splits attr.splits)

lemma getattr_frame:
  assumes "getattr w ob n = Inr (w', v)"
  shows "next_oid w \<le> next_oid w' \<and> modules w' = modules w
     \<and> builtin_type w' = builtin_type w \<and> builtin_method w' = builtin_method w
     \<and> import_log w' = import_log w \<and> (\<forall>i<next_oid w. heap w' i = heap w i)"
  using getattr_Inr [OF assms] by auto

lemma getattr_path_frame:
  "getattr_path w ob ns = Inr (w', v) \<Longrightarrow>
     next_oid w \<le> next_oid w' \<and> modules w' = modules w
     \<and> builtin_type w' = builtin_type w \<and> builtin_method w' = builtin_method w
     \<and> import_log w' = import_log w \<and> (\<forall>i<next_oid w. heap w' i = heap w i)"
proof (induction ns arbitrary: w ob)
  case Nil
  then show ?case by simp
next
  case (Cons n ns)
  from Cons.prems obtain w1 v1 where g: "getattr w ob n = Inr (w1, v1)"
    by (cases "getattr w ob n") auto
  with Cons.prems have p: "getattr_path w1 v1 ns = Inr (w', v)" by simp
  from getattr_frame [OF g] Cons.IH [OF p] show ?case by auto
qed

lemma resolve_target_Inr:
  assumes "resolve_target w r = Inr (w1, cur)"
  shows "(case u_type r of
           Some c \<Rightarrow> w1 = w \<and> cur = c
         | None \<Rightarrow> (\<exists>md. modules w (module_of r) = Inr md
               \<and> getattr_path (w\<lparr>import_log := import_log w @ [module_of r]\<rparr>) md (tail r)
                   = Inr (w1, cur)))"
proof (cases "u_type r")
  case (Some c)
  with assms show ?thesis by (simp add: resolve_target_def)
next
  case None
  with assms obtain wa md where imp: "import_module w (module_of r) = Inr (wa, md)"
    by (cases "import_module w (module_of r)") (auto simp: resolve_target_def)
  with assms None have "getattr_path wa md (tail r) = Inr (w1, cur)"
    by (simp add: resolve_target_def)
  with imp None show ?thesis
    by (auto simp: import_module_Inr)
qed


lemma try_import_unfold:
  "try_import w r ens =
     reraise r
       (case resolve_target w r of
          Inl e \<Rightarrow> Inl e
        | Inr (w1, cur) \<Rightarrow>
            (case (if u_mixins r \<noteq> []
                   then (case import_mixins w1 (u_mixins r) of
                           Inl e \<Rightarrow> Inl e
                         | Inr (w2, mixins) \<Rightarrow>
                             (case dunder_name (heap w2 cur) of
                                None \<Rightarrow> Inl AttributeError
                              | Some n \<Rightarrow> new_type w2 (''DootGenerated:'' @ n) (mixins @ [cur])))
                   else Inr (w1, cur)) of
               Inl e \<Rightarrow> Inl e
             | Inr (w3, cur') \<Rightarrow>
                 (case check_ensure w3 r cur' ens of
                    Inl e \<Rightarrow> Inl e
                  | Inr u \<Rightarrow> Inr (w3, cur'))))"
  by (cases r) (simp only: try_import.simps ref.sel)

lemma try_import_no_mixins:
  assumes "u_mixins r = []"
  shows "try_import w r ens =
     reraise r (case resolve_target w r of
                  Inl e \<Rightarrow> Inl e
                | Inr (w1, cur) \<Rightarrow>
                    (case check_ensure w1 r cur ens of Inl e \<Rightarrow> Inl e | Inr u \<Rightarrow> Inr (w1, cur)))"
  unfolding try_import_unfold [of w r ens] using assms
  by (simp split: sum.splits)

lemma try_import_no_mixins_Inr:
  assumes "u_mixins r = []"
  shows "try_import w r ens = Inr (w1, t) \<longleftrightarrow>
     resolve_target w r = Inr (w1, t) \<and> check_ensure w1 r t ens = Inr ()"
  unfolding try_import_no_mixins [OF assms] reraise_Inr
  by (auto split: sum.splits)


lemma try_import_mixins_Inr:
  assumes "u_mixins r \<noteq> []"
  shows "try_import w r ens = Inr (w', t) \<longleftrightarrow>
     (\<exists>w1 cur w2 ms n.
        resolve_target w r = Inr (w1, cur) \<and>
        import_mixins w1 (u_mixins r) = Inr (w2, ms) \<and>
        dunder_name (heap w2 cur) = Some n \<and>
        new_type w2 (''DootGenerated:'' @ n) (ms @ [cur]) = Inr (w', t) \<and>
        check_ensure w' r t ens = Inr ())"
proof
  assume "try_import w r ens = Inr (w', t)"
  then have body: "(case resolve_target w r of
          Inl e \<Rightarrow> Inl e
        | Inr (w1, cur) \<Rightarrow>
            (case (case import_mixins w1 (u_mixins r) of
                           Inl e \<Rightarrow> Inl e
                         | Inr (w2, mixins) \<Rightarrow>
                             (case dunder_name (heap w2 cur) of
                                None \<Rightarrow> Inl AttributeError
                              | Some n \<Rightarrow> new_type w2 (''DootGenerated:'' @ n) (mixins @ [cur]))) of
               Inl e \<Rightarrow> Inl e
             | Inr (w3, cur') \<Rightarrow>
                 (case check_ensure w3 r cur' ens of
                    Inl e \<Rightarrow> Inl e
                  | Inr u \<Rightarrow> Inr (w3, cur')))) = Inr (w', t)"
    unfolding try_import_unfold [of w r ens] reraise_Inr using assms
    by (simp cong: sum.case_cong)
  then obtain w1 cur where res: "resolve_target w r = Inr (w1, cur)"
    by (cases "resolve_target w r") auto
  with body obtain w2 ms where im: "import_mixins w1 (u_mixins r) = Inr (w2, ms)"
    by (cases "import_mixins w1 (u_mixins r)") auto
  with body res obtain n where n: "dunder_name (heap w2 cur) = Some n"
    by (cases "dunder_name (heap w2 cur)") auto
  with body res im obtain w3 c3 where nt: "new_type w2 (''DootGenerated:'' @ n) (ms @ [cur]) = Inr (w3, c3)"
    by (cases "new_type w2 (''DootGenerated:'' @ n) (ms @ [cur])") auto
  with body res im n have "check_ensure w3 r c3 ens = Inr () \<and> w3 = w' \<and> c3 = t"
    by (cases "check_ensure w3 r c3 ens") auto
  with res im n nt show "\<exists>w1 cur w2 ms n.
        resolve_target w r = Inr (w1, cur) \<and>
        import_mixins w1 (u_mixins r) = Inr (w2, ms) \<and>
        dunder_name (heap w2 cur) = Some n \<and>
        new_type w2 (''DootGenerated:'' @ n) (ms @ [cur]) = Inr (w', t) \<and>
        check_ensure w' r t ens = Inr ()"
    by blast
next
  assume "\<exists>w1 cur w2 ms n.
        resolve_target w r = Inr (w1, cur) \<and>
        import_mixins w1 (u_mixins r) = Inr (w2, ms) \<and>
        dunder_name (heap w2 cur) = Some n \<and>
        new_type w2 (''DootGenerated:'' @ n) (ms @ [cur]) = Inr (w', t) \<and>
        check_ensure w' r t ens = Inr ()"
  then show "try_import w r ens = Inr (w', t)"
    unfolding try_import_unfold [of w r ens] reraise_Inr using assms by auto
qed


lemmas ex_defs = ex_world_def ex_heap_def ex_modules_def ex_objects_def ex_class_def
  ex_function_def

lemmas eval_defs = resolve_target_def module_of_def value_of_def str_of_def
  import_module_def getattr_def bound_method_def check_ensure_def reraise_def isinstance_def
  issubclass_def new_type_def c3_candidate_def c3_merge.simps Let_def



text \<open>
  C5. The claim has an ImportError raised whenever the result is neither an instance nor a
  subclass of the expected type. When the result is not a class (the reference names a
  function or another object) and is not an instance of the expected type,
  \<^verbatim>\<open>issubclass\<close> raises TypeError, which no handler of \<^verbatim>\<open>try_import\<close> catches: the caller gets a
  TypeError, not the ImportError.
\<close>

theorem try_import_ensure_not_class:
  assumes "u_mixins r = []" and "resolve_target w r = Inr (w1, cur)"
    and "\<not> is_type (heap w1 cur)" and "\<not> isinstance w1 cur t"
  shows "try_import w r (Some t) = Inl TypeError"
  using assms
  by (simp add: try_import_no_mixins check_ensure_def issubclass_def reraise_def)

theorem try_import_ensure_not_class_witness:
  "u_mixins (Ref [''pkg'', ''mod''] [''func''] '':'' ''.'' [] None) = []
   \<and> resolve_target ex_world (Ref [''pkg'', ''mod''] [''func''] '':'' ''.'' [] None)
       = Inr (ex_world\<lparr>import_log := [''pkg.mod'']\<rparr>, 6)
   \<and> \<not> is_type (heap (ex_world\<lparr>import_log := [''pkg.mod'']\<rparr>) 6)
   \<and> \<not> isinstance (ex_world\<lparr>import_log := [''pkg.mod'']\<rparr>) 6 3
   \<and> try_import ex_world (Ref [''pkg'', ''mod''] [''func''] '':'' ''.'' [] None) (Some 3)
       = Inl TypeError"
proof -
  let ?r = "Ref [''pkg'', ''mod''] [''func''] '':'' ''.'' [] None"
  let ?w1 = "ex_world\<lparr>import_log := [''pkg.mod'']\<rparr>"
  have h1: "u_mixins ?r = []" by simp
  have h2: "resolve_target ex_world ?r = Inr (?w1, 6)"
    by (simp add: eval_defs ex_defs)
  have h3: "\<not> is_type (heap ?w1 6)"
    by (simp add: ex_defs)
  have h4: "\<not> isinstance ?w1 6 3"
    by (simp add: isinstance_def ex_defs)
  from try_import_ensure_not_class [OF h1 h2 h3 h4] h1 h2 h3 h4 show ?thesis
    by blast
qed

text \<open>
  The other cases of the claim hold: a module that cannot be found and a missing attribute
  give an ImportError carrying the rendered reference, and a class that is neither an
  instance nor a subclass of the expected type gives the ImportError of the mismatch.
\<close>

lemma try_import_module_not_found:
  assumes "u_type r = None" and "modules w (module_of r) = Inl ModuleNotFoundError"
  shows "try_import w r ens =
     Inl (ImportError [AStr (''Module can'' @ [CHR 0x27] @ ''t be found''), AStr (str_of r)])"
  using assms
  by (simp add: try_import_unfold resolve_target_def import_module_def reraise_def)

lemma try_import_attribute_missing:
  assumes "u_type r = None" and "modules w (module_of r) = Inr md"
    and "getattr_path (w\<lparr>import_log := import_log w @ [module_of r]\<rparr>) md (tail r)
           = Inl AttributeError"
  shows "try_import w r ens =
     Inl (ImportError [AStr ''Attempted to import %s but failed'', AStr (str_of r)])"
  using assms
  by (simp add: try_import_unfold resolve_target_def import_module_def reraise_def)

lemma try_import_ensure_mismatch:
  assumes "u_mixins r = []" and "resolve_target w r = Inr (w1, cur)"
    and "is_type (heap w1 cur)" and "\<not> isinstance w1 cur t" and "t \<notin> set (mro (heap w1 cur))"
  shows "try_import w r (Some t) =
     Inl (ImportError [AStr ''Imported Code Reference is not of correct type'', ARef r, AType t])"
  using assms
  by (simp add: try_import_no_mixins check_ensure_def issubclass_def reraise_def)

text \<open>
  C9. For an entry point \<^verbatim>\<open>build\<close> raises NameError: it loads nothing and returns no
  reference. The claim describes what the sibling branch for a class does, and what
  loading first and then taking that branch would give: the declared module as module
  path, the declared name as attribute path, the object cached in \<^verbatim>\<open>_type\<close>.
\<close>

theorem build_entry_point_raises:
  "build w (BEntryPoint ep) = Inl (NameError ''ctor'')
   \<and> (\<forall>ld loaded m n. ld ep = Inr loaded \<and> dunder_module (heap w loaded) = Some m
          \<and> dunder_name (heap w loaded) = Some n
        \<longrightarrow> build_entry_point_intended w ld ep = Inr (mk_ref (SStr m) (SStr n) [] (Some loaded))
            \<and> build w (BType loaded) = Inr (mk_ref (SStr m) (SStr n) [] (Some loaded)))"
  by (simp add: build_entry_point_intended_def)

theorem build_entry_point_raises_witness:
  "build ex_world (BEntryPoint \<lparr>ep_name = ''target'', ep_value = ''pkg.mod:Target''\<rparr>)
     = Inl (NameError ''ctor'')
   \<and> build_entry_point_intended ex_world (\<lambda>e. Inr 3)
        \<lparr>ep_name = ''target'', ep_value = ''pkg.mod:Target''\<rparr>
     = Inr (Ref [''pkg.mod''] [''Target''] '':'' ''.'' [] (Some 3))"
proof -
  let ?ep = "\<lparr>ep_name = ''target'', ep_value = ''pkg.mod:Target''\<rparr>"
  have a: "(\<lambda>e. Inr 3) ?ep = (Inr 3 :: error + oid)
      \<and> dunder_module (heap ex_world 3) = Some ''pkg.mod''
      \<and> dunder_name (heap ex_world 3) = Some ''Target''"
    by (simp add: ex_defs)
  note t = build_entry_point_raises [of ex_world ?ep]
  from t have c1: "build ex_world (BEntryPoint ?ep) = Inl (NameError ''ctor'')"
    by (rule conjunct1)
  from t [THEN conjunct2, THEN spec, of "\<lambda>e. Inr 3"] a
  have c2: "build_entry_point_intended ex_world (\<lambda>e. Inr 3) ?ep
           = Inr (mk_ref (SStr ''pkg.mod'') (SStr ''Target'') [] (Some 3))"
    by simp
  from c1 c2 have "build ex_world (BEntryPoint ?ep) = Inl (NameError ''ctor'')
     \<and> build_entry_point_intended ex_world (\<lambda>e. Inr 3) ?ep
           = Inr (mk_ref (SStr ''pkg.mod'') (SStr ''Target'') [] (Some 3))"
    by (rule conjI)
  then show ?thesis
    by (simp add: mk_ref_def IMPORT_SEP_def default_subseparator_def)
qed

section \<open>Composition with mixins\<close>

lemma new_type_Inr:
  assumes "new_type w nm bs = Inr (w', t)"
  shows "t = next_oid w \<and> next_oid w' = Suc t \<and> modules w' = modules w
     \<and> builtin_type w' = builtin_type w \<and> import_log w' = import_log w
     \<and> (\<forall>b \<in> set bs. is_type (heap w b)) \<and> distinct bs
     \<and> (\<exists>l meta. c3_merge (map (\<lambda>b. mro (heap w b)) bs @ [bs]) = Some l
          \<and> heap w' = (heap w)(t := \<lparr>is_type = True, dunder_name = Some nm,
                dunder_module = Some ''jgdv.structs.code_ref'',
                attrs = concat (map (\<lambda>u. attrs (heap w u)) l),
                bases = bs, mro = t # l, cls = meta\<rparr>))"
proof -
  from assms have a: "\<forall>b \<in> set bs. is_type (heap w b)" and d: "distinct bs"
    by (auto simp: new_type_def split: if_splits)
  from assms a d obtain meta where m: "calc_metaclass w (builtin_type w) bs = Inr meta"
    by (cases "calc_metaclass w (builtin_type w) bs") (auto simp: new_type_def)
  from assms a d m obtain l where l: "c3_merge (map (\<lambda>b. mro (heap w b)) bs @ [bs]) = Some l"
    by (cases "c3_merge (map (\<lambda>b. mro (heap w b)) bs @ [bs])") (auto simp: new_type_def)
  from assms a d m l show ?thesis
    by (auto simp: new_type_def Let_def)
qed

lemma c3_merge_Some:
  assumes "c3_merge seqs = Some l" and "filter (\<lambda>s. s \<noteq> []) seqs \<noteq> []"
  shows "\<exists>h l'. c3_candidate (filter (\<lambda>s. s \<noteq> []) seqs) = Some h
     \<and> c3_merge (map (\<lambda>s. if hd s = h then tl s else s) (filter (\<lambda>s. s \<noteq> []) seqs)) = Some l'
     \<and> l = h # l'"
proof -
  let ?ne = "filter (\<lambda>s. s \<noteq> []) seqs"
  from assms have body: "(case c3_candidate ?ne of
              None \<Rightarrow> None
            | Some h \<Rightarrow>
                (case c3_merge (map (\<lambda>s. if hd s = h then tl s else s) ?ne) of
                   None \<Rightarrow> None
                 | Some l \<Rightarrow> Some (h # l))) = Some l"
    by (subst (asm) c3_merge.simps) (simp add: Let_def)
  then obtain h where h: "c3_candidate ?ne = Some h"
    by (cases "c3_candidate ?ne") auto
  with body obtain l' where "c3_merge (map (\<lambda>s. if hd s = h then tl s else s) ?ne) = Some l'" "l = h # l'"
    by (cases "c3_merge (map (\<lambda>s. if hd s = h then tl s else s) ?ne)") auto
  with h show ?thesis by blast
qed

lemma c3_merge_Nil:
  "filter (\<lambda>s. s \<noteq> []) seqs = [] \<Longrightarrow> c3_merge seqs = Some []"
  by (subst c3_merge.simps) (simp add: Let_def)

lemma c3_merge_subseq:
  "c3_merge seqs = Some l \<Longrightarrow> s \<in> set seqs \<Longrightarrow> subseq s l"
proof (induction seqs arbitrary: l s rule: c3_merge.induct)
  case (1 seqs)
  let ?ne = "filter (\<lambda>s. s \<noteq> []) seqs"
  show ?case
  proof (cases "s = []")
    case True
    then show ?thesis by simp
  next
    case False
    with "1.prems" have sne: "s \<in> set ?ne" by simp
    then have ne: "?ne \<noteq> []" by (metis empty_iff empty_set)
    let ?f = "\<lambda>h s. if hd s = h then tl s else s"
    from c3_merge_Some [OF "1.prems"(1) ne] obtain h l' where
      h: "c3_candidate ?ne = Some h" and l': "c3_merge (map (?f h) ?ne) = Some l'" and l: "l = h # l'"
      by blast
    have "?f h s \<in> set (map (?f h) ?ne)"
      using sne by force
    then have sub: "subseq (?f h s) l'"
      by (rule "1.IH" [OF refl ne h l'])
    show ?thesis
    proof (cases "hd s = h")
      case True
      with False have "s = h # tl s" by (cases s) auto
      moreover from sub True have "subseq (tl s) l'" by simp
      ultimately show ?thesis
        using l by (metis subseq_Cons2)
    next
      case False
      with sub have "subseq s l'" by simp
      then show ?thesis using l by (auto intro: list_emb_Cons)
    qed
  qed
qed

lemma import_mixins_chain:
  "import_mixins w1 rs = Inr (w2, ms) \<Longrightarrow>
     \<exists>ws. length ws = Suc (length rs) \<and> hd ws = w1 \<and> last ws = w2 \<and> length ms = length rs \<and>
       (\<forall>i<length rs. try_import (ws ! i) (rs ! i) None = Inr (ws ! Suc i, ms ! i))"
proof (induction rs arbitrary: w1 ms)
  case Nil
  then show ?case
    by (intro exI [where x = "[w1]"]) simp
next
  case (Cons r rs)
  from Cons.prems obtain wa t where t: "try_import w1 r None = Inr (wa, t)"
    by (cases "try_import w1 r None") auto
  with Cons.prems obtain ts where ts: "import_mixins wa rs = Inr (w2, ts)" and ms: "ms = t # ts"
    by (cases "import_mixins wa rs") auto
  from Cons.IH [OF ts] obtain ws where ws: "length ws = Suc (length rs)" "hd ws = wa" "last ws = w2"
    "length ts = length rs"
    "\<forall>i<length rs. try_import (ws ! i) (rs ! i) None = Inr (ws ! Suc i, ts ! i)"
    by blast
  from ws(1) have wsne: "ws \<noteq> []" by auto
  then have ws0: "ws ! 0 = wa" using ws(2) by (simp add: hd_conv_nth)
  have "\<forall>i<length (r # rs). try_import ((w1 # ws) ! i) ((r # rs) ! i) None
          = Inr ((w1 # ws) ! Suc i, ms ! i)"
  proof (intro allI impI)
    fix i assume "i < length (r # rs)"
    then show "try_import ((w1 # ws) ! i) ((r # rs) ! i) None = Inr ((w1 # ws) ! Suc i, ms ! i)"
      using t ws0 ws(5) ms by (cases i) auto
  qed
  then show ?case
    using ws wsne ms by (intro exI [where x = "w1 # ws"]) simp
qed


lemma resolve_target_frame:
  assumes "resolve_target w r = Inr (w1, cur)"
  shows "next_oid w \<le> next_oid w1 \<and> modules w1 = modules w
     \<and> builtin_type w1 = builtin_type w \<and> (\<forall>i<next_oid w. heap w1 i = heap w i)"
proof (cases "u_type r")
  case (Some c)
  with assms show ?thesis by (simp add: resolve_target_def)
next
  case None
  with resolve_target_Inr [OF assms] obtain md where
    "getattr_path (w\<lparr>import_log := import_log w @ [module_of r]\<rparr>) md (tail r) = Inr (w1, cur)"
    by auto
  from getattr_path_frame [OF this] show ?thesis by simp
qed

lemma try_import_frame:
  "try_import w r ens = Inr (w', t) \<Longrightarrow>
     next_oid w \<le> next_oid w' \<and> modules w' = modules w \<and> builtin_type w' = builtin_type w
     \<and> (\<forall>i<next_oid w. heap w' i = heap w i)"
  and import_mixins_frame:
  "import_mixins w rs = Inr (w', ts) \<Longrightarrow>
     next_oid w \<le> next_oid w' \<and> modules w' = modules w \<and> builtin_type w' = builtin_type w
     \<and> (\<forall>i<next_oid w. heap w' i = heap w i)"
proof (induction w r ens and w rs arbitrary: w' t and w' ts rule: try_import_import_mixins.induct)
  case (1 w h tl sep sub ms ty ensure)
  let ?r = "Ref h tl sep sub ms ty"
  show ?case
  proof (cases "ms = []")
    case True
    with "1.prems" have "resolve_target w ?r = Inr (w', t)"
      using try_import_no_mixins_Inr [of ?r w ensure w' t] by simp
    from resolve_target_frame [OF this] show ?thesis by simp
  next
    case False
    with "1.prems" obtain w1 cur w2 mixins n where
      res: "resolve_target w ?r = Inr (w1, cur)" and
      im: "import_mixins w1 ms = Inr (w2, mixins)" and
      nt: "new_type w2 (''DootGenerated:'' @ n) (mixins @ [cur]) = Inr (w', t)"
      using try_import_mixins_Inr [of ?r w ensure w' t] by auto
    note f1 = resolve_target_frame [OF res]
    have f2: "next_oid w1 \<le> next_oid w2 \<and> modules w2 = modules w1
        \<and> builtin_type w2 = builtin_type w1 \<and> (\<forall>i<next_oid w1. heap w2 i = heap w1 i)"
      using "1.IH" [OF res refl False im] .
    from new_type_Inr [OF nt] have f3: "t = next_oid w2" "next_oid w' = Suc t"
      "modules w' = modules w2" "builtin_type w' = builtin_type w2"
      "\<forall>i. i \<noteq> t \<longrightarrow> heap w' i = heap w2 i"
      by auto
    from f1 f2 f3 show ?thesis by auto
  qed
next
  case (2 w)
  then show ?case by simp
next
  case (3 w mix rest)
  from "3.prems" obtain w1 t1 where t: "try_import w mix None = Inr (w1, t1)"
    by (cases "try_import w mix None") auto
  with "3.prems" obtain ts' where r: "import_mixins w1 rest = Inr (w', ts')"
    by (cases "import_mixins w1 rest") auto
  from "3.IH"(1) [OF t] "3.IH"(2) [OF t refl r] show ?case by auto
qed


text \<open>
  C2. When a reference with a non-empty mixin list resolves, the primary target is resolved
  first, then every mixin by its own \<^verbatim>\<open>try_import\<close>, in list order, each in the runtime the
  one before left; the result is a class that did not exist before, whose bases are the
  resolved mixins in list order followed by the target as the last base. Its method
  resolution order starts with the class itself and keeps the order of the bases, so every
  mixin comes before the target.
\<close>

theorem try_import_composes_mixins:
  assumes "u_mixins r \<noteq> []" and "try_import w r ens = Inr (w', t)"
  shows "\<exists>w1 cur ws ms n.
      resolve_target w r = Inr (w1, cur)
    \<and> length ws = Suc (length (u_mixins r)) \<and> hd ws = w1 \<and> length ms = length (u_mixins r)
    \<and> (\<forall>i<length (u_mixins r).
          try_import (ws ! i) (u_mixins r ! i) None = Inr (ws ! Suc i, ms ! i))
    \<and> dunder_name (heap (last ws) cur) = Some n
    \<and> next_oid w \<le> t \<and> t = next_oid (last ws) \<and> next_oid w' = Suc t
    \<and> (\<forall>i. i \<noteq> t \<longrightarrow> heap w' i = heap (last ws) i)
    \<and> is_type (heap w' t)
    \<and> dunder_name (heap w' t) = Some (''DootGenerated:'' @ n)
    \<and> bases (heap w' t) = ms @ [cur]
    \<and> hd (mro (heap w' t)) = t
    \<and> subseq (ms @ [cur]) (tl (mro (heap w' t)))"
proof -
  from assms obtain w1 cur w2 ms n where
    res: "resolve_target w r = Inr (w1, cur)" and
    im: "import_mixins w1 (u_mixins r) = Inr (w2, ms)" and
    n: "dunder_name (heap w2 cur) = Some n" and
    nt: "new_type w2 (''DootGenerated:'' @ n) (ms @ [cur]) = Inr (w', t)"
    using try_import_mixins_Inr [of r w ens w' t] by auto
  from import_mixins_chain [OF im] obtain ws where
    ws: "length ws = Suc (length (u_mixins r))" "hd ws = w1" "last ws = w2"
      "length ms = length (u_mixins r)"
      "\<forall>i<length (u_mixins r).
          try_import (ws ! i) (u_mixins r ! i) None = Inr (ws ! Suc i, ms ! i)"
    by blast
  from new_type_Inr [OF nt] obtain l meta where
    t: "t = next_oid w2" and nx: "next_oid w' = Suc t" and
    l: "c3_merge (map (\<lambda>b. mro (heap w2 b)) (ms @ [cur]) @ [ms @ [cur]]) = Some l" and
    hp: "heap w' = (heap w2)(t := \<lparr>is_type = True, dunder_name = Some (''DootGenerated:'' @ n),
                dunder_module = Some ''jgdv.structs.code_ref'',
                attrs = concat (map (\<lambda>u. attrs (heap w2 u)) l),
                bases = ms @ [cur], mro = t # l, cls = meta\<rparr>)"
    by blast
  have sub: "subseq (ms @ [cur]) l"
    by (rule c3_merge_subseq [OF l]) simp
  have "next_oid w \<le> next_oid w1"
    using resolve_target_frame [OF res] by simp
  moreover have "next_oid w1 \<le> next_oid w2"
    using import_mixins_frame [OF im] by simp
  ultimately have lo: "next_oid w \<le> t"
    using t by simp
  have obj: "is_type (heap w' t)" "dunder_name (heap w' t) = Some (''DootGenerated:'' @ n)"
    "bases (heap w' t) = ms @ [cur]" "hd (mro (heap w' t)) = t"
    "subseq (ms @ [cur]) (tl (mro (heap w' t)))"
    using hp sub by simp_all
  have old: "\<forall>i. i \<noteq> t \<longrightarrow> heap w' i = heap w2 i"
    using hp by simp
  from res ws n lo t nx old obj show ?thesis
    by blast
qed


theorem try_import_composes_mixins_witness:
  "u_mixins ex_ref_mixins \<noteq> []
   \<and> (\<exists>w'. try_import ex_world ex_ref_mixins None = Inr (w', 11)
        \<and> bases (heap w' 11) = [5, 4, 3] \<and> mro (heap w' 11) = [11, 5, 4, 3, 1]
        \<and> (\<exists>w1 cur ws ms n.
      resolve_target ex_world ex_ref_mixins = Inr (w1, cur)
    \<and> length ws = Suc (length (u_mixins ex_ref_mixins)) \<and> hd ws = w1
    \<and> length ms = length (u_mixins ex_ref_mixins)
    \<and> (\<forall>i<length (u_mixins ex_ref_mixins).
          try_import (ws ! i) (u_mixins ex_ref_mixins ! i) None = Inr (ws ! Suc i, ms ! i))
    \<and> dunder_name (heap (last ws) cur) = Some n
    \<and> next_oid ex_world \<le> 11 \<and> 11 = next_oid (last ws) \<and> next_oid w' = Suc 11
    \<and> (\<forall>i. i \<noteq> 11 \<longrightarrow> heap w' i = heap (last ws) i)
    \<and> is_type (heap w' 11)
    \<and> dunder_name (heap w' 11) = Some (''DootGenerated:'' @ n)
    \<and> bases (heap w' 11) = ms @ [cur]
    \<and> hd (mro (heap w' 11)) = 11
    \<and> subseq (ms @ [cur]) (tl (mro (heap w' 11)))))"
proof -
  have h1: "u_mixins ex_ref_mixins \<noteq> []"
    by (simp add: ex_ref_mixins_def)
  have "\<exists>w'. try_import ex_world ex_ref_mixins None = Inr (w', 11)
        \<and> bases (heap w' 11) = [5, 4, 3] \<and> mro (heap w' 11) = [11, 5, 4, 3, 1]"
    by (simp add: ex_ref_mixins_def eval_defs ex_defs)
  then obtain w' where h2: "try_import ex_world ex_ref_mixins None = Inr (w', 11)"
    and b: "bases (heap w' 11) = [5, 4, 3]" "mro (heap w' 11) = [11, 5, 4, 3, 1]"
    by blast
  note c = try_import_composes_mixins [OF h1 h2]
  from h1 h2 b c show ?thesis
    by blast
qed

section \<open>Adding mixins\<close>

lemma filter_find:
  "(case filter P xs of [] \<Rightarrow> a | x # ys \<Rightarrow> f x) = (case find P xs of None \<Rightarrow> a | Some x \<Rightarrow> f x)"
  by (induction xs) auto

lemma from_alias_target: "from_alias alias g pl = from_str (alias_target pl g alias)"
proof (cases "pl g")
  case None
  then show ?thesis by (simp add: from_alias_def alias_target_def)
next
  case (Some recs)
  have "(case filter (\<lambda>x. ep_name x = alias) recs of [] \<Rightarrow> from_str alias | x # ys \<Rightarrow> from_str (ep_value x))
      = (case find (\<lambda>x. ep_name x = alias) recs of None \<Rightarrow> from_str alias | Some x \<Rightarrow> from_str (ep_value x))"
    by (rule filter_find)
  with Some show ?thesis
    by (simp add: from_alias_def alias_target_def split: option.splits list.splits)
qed

lemma add_loop_append:
  "add_loop w pl acc (xs @ ys) =
     (case add_loop w pl acc xs of Inl e \<Rightarrow> Inl e | Inr acc' \<Rightarrow> add_loop w pl acc' ys)"
  by (induction xs arbitrary: acc) (auto split: sum.splits)

lemma mixin_ref_group:
  "p ''mixin'' = q ''mixin'' \<Longrightarrow> mixin_ref w (Some p) a = mixin_ref w (Some q) a"
  by (cases a) (simp_all add: from_alias_def)

lemma add_loop_group:
  "p ''mixin'' = q ''mixin'' \<Longrightarrow> add_loop w (Some p) acc args = add_loop w (Some q) acc args"
  by (induction args arbitrary: acc) (auto simp: mixin_ref_group [of p q] split: sum.splits)

text \<open>
  C10. With a plugins table, \<^verbatim>\<open>add_mixins\<close> resolves a string mixin by the alias lookup in the
  group \<^verbatim>\<open>mixin\<close>: the string parsed is the string itself when that group is absent or has
  no record of that name, else the value of the first record of that name. The call then
  behaves as if the parsed reference had been supplied, or fails with the parse error once
  the mixins before it are processed. No other group is consulted, the group \<^verbatim>\<open>mixins\<close>
  included: two tables that agree on the group \<^verbatim>\<open>mixin\<close> give the same result.
\<close>

theorem add_mixins_alias_group:
  "mixin_ref w (Some p) (MStr s) = from_str (alias_target p ''mixin'' s)
   \<and> (\<forall>m. from_str (alias_target p ''mixin'' s) = Inr m \<longrightarrow>
         add_mixins w r (pre @ MStr s # post) (Some p)
           = add_mixins w r (pre @ MRef m # post) (Some p))
   \<and> (\<forall>e acc. from_str (alias_target p ''mixin'' s) = Inl e
           \<and> add_loop w (Some p) (u_mixins r) pre = Inr acc \<longrightarrow>
         add_mixins w r (pre @ MStr s # post) (Some p) = Inl e)
   \<and> (\<forall>q args. q ''mixin'' = p ''mixin'' \<longrightarrow>
         add_mixins w r args (Some q) = add_mixins w r args (Some p))"
proof (intro conjI allI impI)
  show a: "mixin_ref w (Some p) (MStr s) = from_str (alias_target p ''mixin'' s)"
    by (simp add: from_alias_target)
  show "add_mixins w r (pre @ MStr s # post) (Some p) = add_mixins w r (pre @ MRef m # post) (Some p)"
    if "from_str (alias_target p ''mixin'' s) = Inr m" for m
    using that a by (simp add: add_mixins_def add_loop_append split: sum.splits)
  show "add_mixins w r (pre @ MStr s # post) (Some p) = Inl e"
    if "from_str (alias_target p ''mixin'' s) = Inl e \<and> add_loop w (Some p) (u_mixins r) pre = Inr acc"
    for e acc
    using that a by (simp add: add_mixins_def add_loop_append)
  show "add_mixins w r args (Some q) = add_mixins w r args (Some p)"
    if "q ''mixin'' = p ''mixin''" for q args
    using add_loop_group [of q p w "u_mixins r" args] that by (simp add: add_mixins_def)
qed


theorem add_mixins_alias_group_witness:
  "alias_target ex_plugins ''mixin'' ''m'' = ''pkg.mod:M2''
   \<and> from_str (alias_target ex_plugins ''mixin'' ''m'')
       = Inr (Ref [''pkg'', ''mod''] [''M2''] '':'' ''.'' [] None)
   \<and> mixin_ref ex_world (Some ex_plugins) (MStr ''m'')
       = Inr (Ref [''pkg'', ''mod''] [''M2''] '':'' ''.'' [] None)
   \<and> add_mixins ex_world ex_ref_target ([] @ MStr ''m'' # []) (Some ex_plugins)
       = add_mixins ex_world ex_ref_target
           ([] @ MRef (Ref [''pkg'', ''mod''] [''M2''] '':'' ''.'' [] None) # [])
           (Some ex_plugins)
   \<and> add_mixins ex_world ex_ref_target [MStr ''m''] (Some ex_plugins)
       = Inr (Ref [''pkg'', ''mod''] [''Target''] '':'' ''.''
               [Ref [''pkg'', ''mod''] [''M2''] '':'' ''.'' [] None] None)
   \<and> alias_target ex_plugins ''mixin'' ''pkg.mod:M1'' = ''pkg.mod:M1''
   \<and> add_mixins ex_world ex_ref_target [MStr ''pkg.mod:M1''] (Some ex_plugins)
       = Inr (Ref [''pkg'', ''mod''] [''Target''] '':'' ''.''
               [Ref [''pkg'', ''mod''] [''M1''] '':'' ''.'' [] None] None)
   \<and> (\<lambda>g. if g = ''mixin'' then ex_plugins g else None) ''mixin'' = ex_plugins ''mixin''
   \<and> add_mixins ex_world ex_ref_target [MStr ''m'']
         (Some (\<lambda>g. if g = ''mixin'' then ex_plugins g else None))
       = add_mixins ex_world ex_ref_target [MStr ''m''] (Some ex_plugins)"
proof -
  let ?m2 = "Ref [''pkg'', ''mod''] [''M2''] '':'' ''.'' [] None"
  note t = add_mixins_alias_group [of ex_world ex_plugins "''m''" ex_ref_target "[]" "[]"]
  have a1: "alias_target ex_plugins ''mixin'' ''m'' = ''pkg.mod:M2''"
    by (simp add: alias_target_def ex_plugins_def)
  have a2: "from_str (alias_target ex_plugins ''mixin'' ''m'') = Inr ?m2"
    unfolding a1
    by (simp add: from_str_def TASK_SEP_def mk_ref_def IMPORT_SEP_def default_subseparator_def)
  from t a2 have a3: "mixin_ref ex_world (Some ex_plugins) (MStr ''m'') = Inr ?m2"
    by simp
  from t a2 have a4: "add_mixins ex_world ex_ref_target ([] @ MStr ''m'' # []) (Some ex_plugins)
       = add_mixins ex_world ex_ref_target ([] @ MRef ?m2 # []) (Some ex_plugins)"
    by blast
  have "add_mixins ex_world ex_ref_target ([] @ MRef ?m2 # []) (Some ex_plugins)
       = Inr (Ref [''pkg'', ''mod''] [''Target''] '':'' ''.'' [?m2] None)"
    by (simp add: add_mixins_def ex_ref_target_def mk_ref_def IMPORT_SEP_def
        default_subseparator_def)
  with a4 have a5: "add_mixins ex_world ex_ref_target [MStr ''m''] (Some ex_plugins)
       = Inr (Ref [''pkg'', ''mod''] [''Target''] '':'' ''.'' [?m2] None)"
    by simp
  have a6: "alias_target ex_plugins ''mixin'' ''pkg.mod:M1'' = ''pkg.mod:M1''"
    by (simp add: alias_target_def ex_plugins_def)
  have a7: "add_mixins ex_world ex_ref_target [MStr ''pkg.mod:M1''] (Some ex_plugins)
       = Inr (Ref [''pkg'', ''mod''] [''Target''] '':'' ''.''
               [Ref [''pkg'', ''mod''] [''M1''] '':'' ''.'' [] None] None)"
    by (simp add: add_mixins_def ex_ref_target_def mk_ref_def IMPORT_SEP_def
        default_subseparator_def from_alias_def ex_plugins_def from_str_def TASK_SEP_def)
  have a8: "(\<lambda>g. if g = ''mixin'' then ex_plugins g else None) ''mixin'' = ex_plugins ''mixin''"
    by simp
  note t4 = t [THEN conjunct2, THEN conjunct2, THEN conjunct2, THEN spec,
      of "\<lambda>g. if g = ''mixin'' then ex_plugins g else None", THEN spec, of "[MStr ''m'']"]
  from t4 a8 have a9: "add_mixins ex_world ex_ref_target [MStr ''m'']
         (Some (\<lambda>g. if g = ''mixin'' then ex_plugins g else None))
       = add_mixins ex_world ex_ref_target [MStr ''m''] (Some ex_plugins)"
    by simp
  from a1 a2 a3 a4 a5 a6 a7 a8 a9 show ?thesis
    by blast
qed

lemma ref_in_iff: "ref_in x es \<longleftrightarrow> str_of x \<in> str_of ` set es"
  by (induction es) (auto simp: ref_eq_def)

lemma add_loop_total:
  "list_all2 (\<lambda>a m. mixin_ref w pl a = Inr m) args ms \<Longrightarrow>
     \<exists>new. add_loop w pl acc args = Inr (acc @ new) \<and> subseq new ms
       \<and> (\<forall>m \<in> set new. str_of m \<notin> str_of ` set acc)
       \<and> distinct (map str_of new)
       \<and> (\<forall>m \<in> set ms. str_of m \<in> str_of ` set (acc @ new))"
proof (induction args ms arbitrary: acc rule: list_all2_induct)
  case Nil
  show ?case
    by (intro exI [where x = "[]"]) simp
next
  case (Cons a args m ms)
  show ?case
  proof (cases "ref_in m acc")
    case True
    from Cons.IH [of acc] obtain new where
      ih: "add_loop w pl acc args = Inr (acc @ new)" "subseq new ms"
        "\<forall>x \<in> set new. str_of x \<notin> str_of ` set acc" "distinct (map str_of new)"
        "\<forall>x \<in> set ms. str_of x \<in> str_of ` set (acc @ new)"
      by blast
    from True have "str_of m \<in> str_of ` set acc" by (simp add: ref_in_iff)
    with ih Cons.hyps(1) True have
      "add_loop w pl acc (a # args) = Inr (acc @ new) \<and> subseq new (m # ms)
       \<and> (\<forall>x \<in> set new. str_of x \<notin> str_of ` set acc)
       \<and> distinct (map str_of new)
       \<and> (\<forall>x \<in> set (m # ms). str_of x \<in> str_of ` set (acc @ new))"
      by (auto intro: list_emb_Cons)
    then show ?thesis by blast
  next
    case False
    from Cons.IH [of "acc @ [m]"] obtain new where
      ih: "add_loop w pl (acc @ [m]) args = Inr ((acc @ [m]) @ new)" "subseq new ms"
        "\<forall>x \<in> set new. str_of x \<notin> str_of ` set (acc @ [m])" "distinct (map str_of new)"
        "\<forall>x \<in> set ms. str_of x \<in> str_of ` set ((acc @ [m]) @ new)"
      by blast
    from False have notin: "str_of m \<notin> str_of ` set acc" by (simp add: ref_in_iff)
    from ih(3) have fresh: "str_of m \<notin> str_of ` set new" by auto
    from ih Cons.hyps(1) False notin fresh have
      "add_loop w pl acc (a # args) = Inr (acc @ (m # new)) \<and> subseq (m # new) (m # ms)
       \<and> (\<forall>x \<in> set (m # new). str_of x \<notin> str_of ` set acc)
       \<and> distinct (map str_of (m # new))
       \<and> (\<forall>x \<in> set (m # ms). str_of x \<in> str_of ` set (acc @ (m # new)))"
      by auto
    then show ?thesis by blast
  qed
qed

lemma add_loop_present:
  "list_all2 (\<lambda>a m. mixin_ref w pl a = Inr m) args ms \<Longrightarrow>
   \<forall>m \<in> set ms. str_of m \<in> str_of ` set acc \<Longrightarrow> add_loop w pl acc args = Inr acc"
  by (induction args ms rule: list_all2_induct) (simp_all add: ref_in_iff)

lemma add_loop_fails:
  "list_all2 (\<lambda>a m. mixin_ref w pl a = Inr m) pre ms \<Longrightarrow> mixin_ref w pl a = Inl e \<Longrightarrow>
     add_loop w pl acc (pre @ a # post) = Inl e"
  by (induction pre ms arbitrary: acc rule: list_all2_induct) simp_all

text \<open>
  C6. Let \<open>ms\<close> be the supplied mixins as references (a reference itself, a class through
  \<^verbatim>\<open>build\<close>, a string through \<^verbatim>\<open>build\<close> or the alias lookup). Then \<^verbatim>\<open>add_mixins\<close> returns a new
  reference whose mixin list is the mixin list of \<open>r\<close> followed by \<open>new\<close>: \<open>new\<close> is taken
  from \<open>ms\<close> in order, none of it is equal by value (by its rendering) to a mixin of \<open>r\<close> or
  to another element of \<open>new\<close>, and every supplied mixin is present by value in the result.
  So a list without duplicates stays without duplicates, and adding the same mixins to the
  result gives the result again, with a list of the same length. The head, the tail and the
  cached type are those of \<open>r\<close>; \<open>r\<close> itself is only read. The call fails only where a
  supplied mixin cannot be made a reference, with the error of the first such mixin.
\<close>

theorem add_mixins_appends_new:
  assumes "list_all2 (\<lambda>a m. mixin_ref w pl a = Inr m) args ms"
  shows "(\<exists>new r'. add_mixins w r args pl = Inr r'
       \<and> u_mixins r' = u_mixins r @ new \<and> subseq new ms
       \<and> (\<forall>m \<in> set new. str_of m \<notin> str_of ` set (u_mixins r))
       \<and> distinct (map str_of new)
       \<and> (\<forall>m \<in> set ms. str_of m \<in> str_of ` set (u_mixins r'))
       \<and> (distinct (map str_of (u_mixins r)) \<longrightarrow> distinct (map str_of (u_mixins r')))
       \<and> add_mixins w r' args pl = Inr r'
       \<and> head r' = head r \<and> tail r' = tail r \<and> u_type r' = u_type r)
     \<and> (\<forall>a e post. mixin_ref w pl a = Inl e \<longrightarrow> add_mixins w r (args @ a # post) pl = Inl e)"
proof
  from add_loop_total [OF assms, of "u_mixins r"] obtain new where
    p: "add_loop w pl (u_mixins r) args = Inr (u_mixins r @ new)" "subseq new ms"
      "\<forall>m \<in> set new. str_of m \<notin> str_of ` set (u_mixins r)"
      "distinct (map str_of new)"
      "\<forall>m \<in> set ms. str_of m \<in> str_of ` set (u_mixins r @ new)"
    by blast
  let ?r' = "mk_ref (SList (head r)) (SList (tail r)) (u_mixins r @ new) (u_type r)"
  have r': "add_mixins w r args pl = Inr ?r'"
    using p(1) by (simp add: add_mixins_def)
  have sel: "u_mixins ?r' = u_mixins r @ new" "head ?r' = head r" "tail ?r' = tail r"
    "u_type ?r' = u_type r"
    by (simp_all add: mk_ref_def)
  have dist: "distinct (map str_of (u_mixins r)) \<longrightarrow> distinct (map str_of (u_mixins r @ new))"
    using p(3,4) by (auto simp: image_iff) metis
  have "add_loop w pl (u_mixins r @ new) args = Inr (u_mixins r @ new)"
    by (rule add_loop_present [OF assms p(5)])
  then have again: "add_mixins w ?r' args pl = Inr ?r'"
    by (simp add: add_mixins_def mk_ref_def)
  from r' sel p dist again
  show "\<exists>new r'. add_mixins w r args pl = Inr r'
       \<and> u_mixins r' = u_mixins r @ new \<and> subseq new ms
       \<and> (\<forall>m \<in> set new. str_of m \<notin> str_of ` set (u_mixins r))
       \<and> distinct (map str_of new)
       \<and> (\<forall>m \<in> set ms. str_of m \<in> str_of ` set (u_mixins r'))
       \<and> (distinct (map str_of (u_mixins r)) \<longrightarrow> distinct (map str_of (u_mixins r')))
       \<and> add_mixins w r' args pl = Inr r'
       \<and> head r' = head r \<and> tail r' = tail r \<and> u_type r' = u_type r"
    by (intro exI [where x = new] exI [where x = ?r']) simp
next
  show "\<forall>a e post. mixin_ref w pl a = Inl e \<longrightarrow> add_mixins w r (args @ a # post) pl = Inl e"
    using add_loop_fails [OF assms] by (simp add: add_mixins_def)
qed

lemmas add_defs = add_mixins_def ref_eq_def str_of_def module_of_def value_of_def
  from_str_def TASK_SEP_def mk_ref_def IMPORT_SEP_def default_subseparator_def

theorem add_mixins_appends_new_witness:
  "list_all2 (\<lambda>a m. mixin_ref ex_world None a = Inr m) ex_args
     [Ref [''pkg'', ''mod''] [''M2''] '':'' ''.'' [] None,
      Ref [''pkg.mod''] [''M1''] '':'' ''.'' [] (Some 4),
      Ref [''pkg'', ''mod''] [''M1''] '':'' ''.'' [] None,
      Ref [''pkg'', ''mod''] [''M2''] '':'' ''.'' [] None]
   \<and> add_mixins ex_world ex_ref_target ex_args None = Inr ex_ref_added
   \<and> add_mixins ex_world ex_ref_added ex_args None = Inr ex_ref_added
   \<and> length (u_mixins ex_ref_added) = 2
   \<and> add_mixins ex_world ex_ref_target (ex_args @ MOther # []) None = Inl TypeError
   \<and> (\<exists>new r'. add_mixins ex_world ex_ref_target ex_args None = Inr r'
       \<and> u_mixins r' = u_mixins ex_ref_target @ new
       \<and> subseq new
           [Ref [''pkg'', ''mod''] [''M2''] '':'' ''.'' [] None,
            Ref [''pkg.mod''] [''M1''] '':'' ''.'' [] (Some 4),
            Ref [''pkg'', ''mod''] [''M1''] '':'' ''.'' [] None,
            Ref [''pkg'', ''mod''] [''M2''] '':'' ''.'' [] None]
       \<and> distinct (map str_of new)
       \<and> add_mixins ex_world r' ex_args None = Inr r'
       \<and> head r' = head ex_ref_target \<and> tail r' = tail ex_ref_target
       \<and> u_type r' = u_type ex_ref_target)"
proof -
  let ?ms = "[Ref [''pkg'', ''mod''] [''M2''] '':'' ''.'' [] None,
      Ref [''pkg.mod''] [''M1''] '':'' ''.'' [] (Some 4),
      Ref [''pkg'', ''mod''] [''M1''] '':'' ''.'' [] None,
      Ref [''pkg'', ''mod''] [''M2''] '':'' ''.'' [] None]"
  have h: "list_all2 (\<lambda>a m. mixin_ref ex_world None a = Inr m) ex_args ?ms"
    by (simp add: ex_args_def add_defs ex_defs)
  note c = add_mixins_appends_new [OF h, of ex_ref_target]
  have a1: "add_mixins ex_world ex_ref_target ex_args None = Inr ex_ref_added"
    by (simp add: ex_args_def ex_ref_target_def ex_ref_added_def add_defs ex_defs)
  have a2: "add_mixins ex_world ex_ref_added ex_args None = Inr ex_ref_added"
    by (simp add: ex_args_def ex_ref_added_def add_defs ex_defs)
  have l: "length (u_mixins ex_ref_added) = 2"
    by (simp add: ex_ref_added_def)
  have o: "mixin_ref ex_world None MOther = Inl TypeError"
    by simp
  from c o have f: "add_mixins ex_world ex_ref_target (ex_args @ MOther # []) None = Inl TypeError"
    by blast
  from c have e: "\<exists>new r'. add_mixins ex_world ex_ref_target ex_args None = Inr r'
       \<and> u_mixins r' = u_mixins ex_ref_target @ new \<and> subseq new ?ms
       \<and> distinct (map str_of new)
       \<and> add_mixins ex_world r' ex_args None = Inr r'
       \<and> head r' = head ex_ref_target \<and> tail r' = tail ex_ref_target
       \<and> u_type r' = u_type ex_ref_target"
    by blast
  from h a1 a2 l f e show ?thesis
    by blast
qed

section \<open>Correctness of the minimal mixin set\<close>

lemma c3_candidate_Some:
  "c3_candidate ne = Some h \<Longrightarrow> h \<in> hd ` set ne \<and> (\<forall>s \<in> set ne. h \<notin> set (tl s))"
  unfolding c3_candidate_def by (auto simp: find_Some_iff)

lemma c3_step_sets:
  assumes "h \<in> hd ` set ne" and "\<forall>s \<in> set ne. s \<noteq> []"
  shows "\<Union> (set ` set ne) = insert h (\<Union> (set ` set (map (\<lambda>s. if hd s = h then tl s else s) ne)))"
proof -
  have each: "\<And>s. s \<in> set ne \<Longrightarrow> hd s = h \<Longrightarrow> set s = insert h (set (tl s))"
    using assms(2) by (metis list.exhaust_sel list.simps(15))
  from assms obtain s0 where s0: "s0 \<in> set ne" "hd s0 = h" by auto
  show ?thesis
  proof (intro set_eqI iffI)
    fix x assume "x \<in> \<Union> (set ` set ne)"
    then obtain s where s: "s \<in> set ne" "x \<in> set s" by auto
    show "x \<in> insert h (\<Union> (set ` set (map (\<lambda>s. if hd s = h then tl s else s) ne)))"
    proof (cases "hd s = h")
      case True
      with each [OF s(1)] s(2) have "x = h \<or> x \<in> set (tl s)" by auto
      with True s(1) show ?thesis by force
    next
      case False
      with s show ?thesis by force
    qed
  next
    fix x assume x: "x \<in> insert h (\<Union> (set ` set (map (\<lambda>s. if hd s = h then tl s else s) ne)))"
    show "x \<in> \<Union> (set ` set ne)"
    proof (cases "x = h")
      case True
      with each [OF s0] s0 show ?thesis by auto
    next
      case False
      with x obtain s where s: "s \<in> set ne" "x \<in> set (if hd s = h then tl s else s)" by auto
      moreover from s(1) assms(2) have "s \<noteq> []" by blast
      ultimately have "x \<in> set s"
        by (auto split: if_splits dest: list.set_sel(2))
      with s(1) show ?thesis by auto
    qed
  qed
qed

lemma c3_merge_set:
  "c3_merge seqs = Some l \<Longrightarrow> set l = \<Union> (set ` set seqs)"
proof (induction seqs arbitrary: l rule: c3_merge.induct)
  case (1 seqs)
  let ?ne = "filter (\<lambda>s. s \<noteq> []) seqs"
  have un: "\<Union> (set ` set seqs) = \<Union> (set ` set ?ne)" by auto
  show ?case
  proof (cases "?ne = []")
    case True
    with "1.prems" c3_merge_Nil [OF True] have "l = []" by simp
    moreover from True have "\<Union> (set ` set ?ne) = {}" by simp
    ultimately show ?thesis using un by simp
  next
    case False
    from c3_merge_Some [OF "1.prems" False] obtain h l' where
      h: "c3_candidate ?ne = Some h" and
      l': "c3_merge (map (\<lambda>s. if hd s = h then tl s else s) ?ne) = Some l'" and l: "l = h # l'"
      by blast
    from "1.IH" [OF refl False h l']
    have "set l' = \<Union> (set ` set (map (\<lambda>s. if hd s = h then tl s else s) ?ne))" .
    moreover have "\<Union> (set ` set ?ne)
        = insert h (\<Union> (set ` set (map (\<lambda>s. if hd s = h then tl s else s) ?ne)))"
      by (rule c3_step_sets) (use c3_candidate_Some [OF h] in auto)
    ultimately show ?thesis using l un by simp
  qed
qed

lemma c3_merge_distinct:
  "c3_merge seqs = Some l \<Longrightarrow> \<forall>s \<in> set seqs. distinct s \<Longrightarrow> distinct l"
proof (induction seqs arbitrary: l rule: c3_merge.induct)
  case (1 seqs)
  let ?ne = "filter (\<lambda>s. s \<noteq> []) seqs"
  show ?case
  proof (cases "?ne = []")
    case True
    with "1.prems" c3_merge_Nil [OF True] show ?thesis by simp
  next
    case False
    from c3_merge_Some [OF "1.prems"(1) False] obtain h l' where
      h: "c3_candidate ?ne = Some h" and
      l': "c3_merge (map (\<lambda>s. if hd s = h then tl s else s) ?ne) = Some l'" and l: "l = h # l'"
      by blast
    have d: "\<forall>s \<in> set (map (\<lambda>s. if hd s = h then tl s else s) ?ne). distinct s"
      using "1.prems"(2) by (auto simp: distinct_tl)
    have dl: "distinct l'"
      by (rule "1.IH" [OF refl False h l' d])
    have "h \<notin> set l'"
    proof
      assume "h \<in> set l'"
      then have "h \<in> \<Union> (set ` set (map (\<lambda>s. if hd s = h then tl s else s) ?ne))"
        using c3_merge_set [OF l'] by simp
      then obtain s where s: "s \<in> set ?ne" "h \<in> set (if hd s = h then tl s else s)" by auto
      from c3_candidate_Some [OF h] s(1) have nt: "h \<notin> set (tl s)" by blast
      from s(1) have "s \<noteq> []" by simp
      then have "set s = insert (hd s) (set (tl s))"
        by (metis list.exhaust_sel list.simps(15))
      with s(2) nt show False by (auto split: if_splits)
    qed
    with dl l show ?thesis by simp
  qed
qed


lemma wf_world_same:
  "heap w' = heap w \<Longrightarrow> next_oid w' = next_oid w \<Longrightarrow> wf_world w \<Longrightarrow> wf_world w'"
  by (simp add: wf_world_def)

lemma wf_worldD:
  assumes "wf_world w" and "is_type (heap w t)"
  shows "t \<in> set (mro (heap w t))" and "distinct (mro (heap w t))"
    and "\<And>u. u \<in> set (mro (heap w t)) \<Longrightarrow> u < next_oid w"
    and "\<And>u. u \<in> set (mro (heap w t)) \<Longrightarrow> is_type (heap w u)"
    and "\<And>u. u \<in> set (mro (heap w t)) \<Longrightarrow> set (mro (heap w u)) \<subseteq> set (mro (heap w t))"
  using assms unfolding wf_world_def by blast+

lemma getattr_wf:
  assumes "getattr w ob n = Inr (w', v)" and wf: "wf_world w"
  shows "wf_world w'"
proof -
  from getattr_Inr [OF assms(1)] consider "w' = w"
    | f where "w' = w\<lparr>heap := (heap w)(next_oid w := bound_method w f),
                      next_oid := Suc (next_oid w)\<rparr>"
    by blast
  then show ?thesis
  proof cases
    case 1
    with wf show ?thesis by simp
  next
    case 2
    show ?thesis
      unfolding wf_world_def
    proof (intro allI impI)
      fix t assume t: "is_type (heap w' t)"
      with 2 have ne: "t \<noteq> next_oid w" and tw: "is_type (heap w t)" and same: "heap w' t = heap w t"
        by (auto simp: bound_method_def split: if_splits)
      have "\<forall>u \<in> set (mro (heap w t)). u < next_oid w' \<and> is_type (heap w' u) \<and>
           set (mro (heap w' u)) \<subseteq> set (mro (heap w t))"
      proof
        fix u assume u: "u \<in> set (mro (heap w t))"
        from wf_worldD(3) [OF wf tw u] have lt: "u < next_oid w" .
        then have "heap w' u = heap w u" using 2 by simp
        with wf_worldD(4,5) [OF wf tw u] lt 2
        show "u < next_oid w' \<and> is_type (heap w' u) \<and>
           set (mro (heap w' u)) \<subseteq> set (mro (heap w t))" by simp
      qed
      with same wf_worldD(1,2) [OF wf tw]
      show "t \<in> set (mro (heap w' t)) \<and> distinct (mro (heap w' t)) \<and>
        (\<forall>u \<in> set (mro (heap w' t)).
           u < next_oid w' \<and> is_type (heap w' u) \<and>
           set (mro (heap w' u)) \<subseteq> set (mro (heap w' t)))" by simp
    qed
  qed
qed

lemma getattr_path_wf:
  "getattr_path w ob ns = Inr (w', v) \<Longrightarrow> wf_world w \<Longrightarrow> wf_world w'"
proof (induction ns arbitrary: w ob)
  case Nil
  then show ?case by simp
next
  case (Cons n ns)
  from Cons.prems obtain w1 v1 where g: "getattr w ob n = Inr (w1, v1)"
    by (cases "getattr w ob n") auto
  with Cons.prems have p: "getattr_path w1 v1 ns = Inr (w', v)" by simp
  from Cons.IH [OF p getattr_wf [OF g Cons.prems(2)]] show ?case .
qed

lemma resolve_target_wf:
  assumes "resolve_target w r = Inr (w1, cur)" and wf: "wf_world w"
  shows "wf_world w1"
proof (cases "u_type r")
  case (Some c)
  with assms show ?thesis by (simp add: resolve_target_def)
next
  case None
  with resolve_target_Inr [OF assms(1)] obtain md where
    p: "getattr_path (w\<lparr>import_log := import_log w @ [module_of r]\<rparr>) md (tail r) = Inr (w1, cur)"
    by auto
  have "wf_world (w\<lparr>import_log := import_log w @ [module_of r]\<rparr>)"
    by (rule wf_world_same [OF _ _ wf]) simp_all
  from getattr_path_wf [OF p this] show ?thesis .
qed

lemma new_type_wf:
  assumes wf: "wf_world w" and nt: "new_type w nm bs = Inr (w', t)"
  shows "wf_world w'"
proof -
  from new_type_Inr [OF nt] obtain l meta where
    t: "t = next_oid w" and nx: "next_oid w' = Suc t" and
    ty: "\<forall>b \<in> set bs. is_type (heap w b)" and db: "distinct bs" and
    l: "c3_merge (map (\<lambda>b. mro (heap w b)) bs @ [bs]) = Some l" and
    hp: "heap w' = (heap w)(t := \<lparr>is_type = True, dunder_name = Some nm,
                dunder_module = Some ''jgdv.structs.code_ref'',
                attrs = concat (map (\<lambda>u. attrs (heap w u)) l),
                bases = bs, mro = t # l, cls = meta\<rparr>)"
    by blast
  have setl: "set l = (\<Union>b \<in> set bs. set (mro (heap w b))) \<union> set bs"
    using c3_merge_set [OF l] by auto
  have inl: "\<And>x. x \<in> set l \<Longrightarrow> \<exists>b \<in> set bs. x \<in> set (mro (heap w b))"
  proof -
    fix x assume "x \<in> set l"
    with setl have "(\<exists>b \<in> set bs. x \<in> set (mro (heap w b))) \<or> x \<in> set bs" by auto
    then show "\<exists>b \<in> set bs. x \<in> set (mro (heap w b))"
      using ty wf_worldD(1) [OF wf] by blast
  qed
  have lprops: "\<And>x. x \<in> set l \<Longrightarrow>
      x < t \<and> is_type (heap w x) \<and> set (mro (heap w x)) \<subseteq> set l"
  proof -
    fix x assume "x \<in> set l"
    from inl [OF this] obtain b where b: "b \<in> set bs" "x \<in> set (mro (heap w b))" by blast
    from ty b(1) have tb: "is_type (heap w b)" by blast
    have "set (mro (heap w b)) \<subseteq> set l" using setl b(1) by auto
    with wf_worldD(3,4,5) [OF wf tb b(2)] t
    show "x < t \<and> is_type (heap w x) \<and> set (mro (heap w x)) \<subseteq> set l" by auto
  qed
  have dl: "distinct l"
    by (rule c3_merge_distinct [OF l]) (use ty db wf_worldD(2) [OF wf] in auto)
  have tl: "t \<notin> set l"
    using lprops by blast
  show ?thesis
    unfolding wf_world_def
  proof (intro allI impI)
    fix u assume u: "is_type (heap w' u)"
    show "u \<in> set (mro (heap w' u)) \<and> distinct (mro (heap w' u)) \<and>
        (\<forall>x \<in> set (mro (heap w' u)).
           x < next_oid w' \<and> is_type (heap w' x) \<and>
           set (mro (heap w' x)) \<subseteq> set (mro (heap w' u)))"
    proof (cases "u = t")
      case True
      then have m: "mro (heap w' u) = t # l" using hp by simp
      have "\<forall>x \<in> set (t # l). x < next_oid w' \<and> is_type (heap w' x) \<and>
           set (mro (heap w' x)) \<subseteq> set (t # l)"
      proof
        fix x assume x: "x \<in> set (t # l)"
        show "x < next_oid w' \<and> is_type (heap w' x) \<and> set (mro (heap w' x)) \<subseteq> set (t # l)"
        proof (cases "x = t")
          case True
          then show ?thesis using hp nx by simp
        next
          case False
          with x have "x \<in> set l" by simp
          from lprops [OF this] False show ?thesis using hp nx by auto
        qed
      qed
      with m True dl tl show ?thesis by simp
    next
      case False
      with u hp have uw: "is_type (heap w u)" and same: "heap w' u = heap w u" by simp_all
      have "\<forall>x \<in> set (mro (heap w u)). x < next_oid w' \<and> is_type (heap w' x) \<and>
           set (mro (heap w' x)) \<subseteq> set (mro (heap w u))"
      proof
        fix x assume x: "x \<in> set (mro (heap w u))"
        from wf_worldD(3) [OF wf uw x] t have "x < t" by simp
        then have "heap w' x = heap w x" using hp by simp
        with wf_worldD(3,4,5) [OF wf uw x] nx t
        show "x < next_oid w' \<and> is_type (heap w' x) \<and>
           set (mro (heap w' x)) \<subseteq> set (mro (heap w u))" by simp
      qed
      with same wf_worldD(1,2) [OF wf uw] show ?thesis by simp
    qed
  qed
qed

lemma try_import_wf:
  "try_import w r ens = Inr (w', t) \<Longrightarrow> wf_world w \<Longrightarrow> wf_world w'"
  and import_mixins_wf:
  "import_mixins w rs = Inr (w', ts) \<Longrightarrow> wf_world w \<Longrightarrow> wf_world w'"
proof (induction w r ens and w rs arbitrary: w' t and w' ts rule: try_import_import_mixins.induct)
  case (1 w h tl sep sub ms ty ensure)
  let ?r = "Ref h tl sep sub ms ty"
  show ?case
  proof (cases "ms = []")
    case True
    with "1.prems" have "resolve_target w ?r = Inr (w', t)"
      using try_import_no_mixins_Inr [of ?r w ensure w' t] by simp
    from resolve_target_wf [OF this "1.prems"(2)] show ?thesis .
  next
    case False
    with "1.prems" obtain w1 cur w2 mixins n where
      res: "resolve_target w ?r = Inr (w1, cur)" and
      im: "import_mixins w1 ms = Inr (w2, mixins)" and
      nt: "new_type w2 (''DootGenerated:'' @ n) (mixins @ [cur]) = Inr (w', t)"
      using try_import_mixins_Inr [of ?r w ensure w' t] by auto
    from resolve_target_wf [OF res "1.prems"(2)] have "wf_world w1" .
    from "1.IH" [OF res refl False im this] have "wf_world w2" .
    from new_type_wf [OF this nt] show ?thesis .
  qed
next
  case (2 w)
  then show ?case by simp
next
  case (3 w mix rest)
  from "3.prems" obtain w1 t1 where t: "try_import w mix None = Inr (w1, t1)"
    by (cases "try_import w mix None") auto
  with "3.prems" obtain ts' where r: "import_mixins w1 rest = Inr (w', ts')"
    by (cases "import_mixins w1 rest") auto
  from "3.IH"(1) [OF t "3.prems"(2)] have "wf_world w1" .
  from "3.IH"(2) [OF t refl r this] show ?case .
qed

lemma minimal_loop_spec:
  assumes wf: "wf_world w"
  shows "\<forall>m \<in> set xs. is_type (heap w m) \<Longrightarrow> \<forall>s \<in> set sel. is_type (heap w s) \<Longrightarrow>
     found = (\<Union>s \<in> set sel. set (mro (heap w s))) \<Longrightarrow>
     minimal_loop w found sel xs = spec_select w sel xs"
proof (induction xs arbitrary: found sel)
  case Nil
  then show ?case by simp
next
  case (Cons m xs)
  from Cons.prems have tm: "is_type (heap w m)" by simp
  have iff: "m \<in> found \<longleftrightarrow> (\<exists>s \<in> set sel. set (mro (heap w m)) \<subseteq> set (mro (heap w s)))"
  proof
    assume "m \<in> found"
    with Cons.prems(3) obtain s where s: "s \<in> set sel" "m \<in> set (mro (heap w s))" by auto
    with Cons.prems(2) have "is_type (heap w s)" by blast
    from wf_worldD(5) [OF wf this s(2)] s(1)
    show "\<exists>s \<in> set sel. set (mro (heap w m)) \<subseteq> set (mro (heap w s))" by blast
  next
    assume "\<exists>s \<in> set sel. set (mro (heap w m)) \<subseteq> set (mro (heap w s))"
    then obtain s where s: "s \<in> set sel" "set (mro (heap w m)) \<subseteq> set (mro (heap w s))" by blast
    with wf_worldD(1) [OF wf tm] have "m \<in> set (mro (heap w s))" by blast
    with s(1) Cons.prems(3) show "m \<in> found" by auto
  qed
  show ?case
  proof (cases "m \<in> found")
    case True
    with iff Cons.IH [of sel found] Cons.prems show ?thesis by simp
  next
    case False
    have "minimal_loop w (found \<union> set (mro (heap w m))) (sel @ [m]) xs
        = spec_select w (sel @ [m]) xs"
      by (rule Cons.IH) (use Cons.prems tm in auto)
    with False iff show ?thesis by simp
  qed
qed

lemma build_all_Inr:
  "build_all w xs = Inr refs \<Longrightarrow>
     list_all2 (\<lambda>x r. build w (BType x) = Inr r) xs refs \<and> map u_type refs = map Some xs"
proof (induction xs arbitrary: refs)
  case Nil
  then show ?case by simp
next
  case (Cons x xs)
  from Cons.prems obtain r where r: "build w (BType x) = Inr r"
    by (cases "build w (BType x)") auto
  with Cons.prems obtain rs where rs: "build_all w xs = Inr rs" "refs = r # rs"
    by (cases "build_all w xs") auto
  from r have "u_type r = Some x"
    by (auto simp: mk_ref_def split: option.splits)
  with Cons.IH [OF rs(1)] r rs(2) show ?case by simp
qed

lemma descending_order:
  "sorted_wrt (\<lambda>a b. f b \<le> (f a :: nat)) (rev (sort_key f xs))
   \<and> mset (rev (sort_key f xs)) = mset xs"
proof -
  have "sorted (map f (sort_key f xs))" by (rule sorted_sort_key)
  then have "sorted_wrt (\<lambda>a b. f a \<le> f b) (sort_key f xs)"
    by (simp add: sorted_map)
  then show ?thesis
    by (simp add: sorted_wrt_rev)
qed


lemma two_mixins_order:
  assumes "f b < (f c :: nat)"
  shows "rev (sort_key f [b, c]) = [c, b]" and "rev (sort_key f [c, b]) = [c, b]"
  using assms by simp_all

text \<open>
  C7. In a runtime with consistent method resolution orders, when
  \<^verbatim>\<open>_calculate_minimal_mixins\<close> returns: every mixin of the list was resolved by \<^verbatim>\<open>try_import\<close>
  to a class; the classes are gone through in descending order of the length of their
  \<^verbatim>\<open>mro\<close>; the membership test of the code selects exactly what the spec describes, skipping
  a class whose whole ancestor set lies in the ancestor set of a class selected before; and
  the result is the selected classes, each turned into a reference by \<^verbatim>\<open>build\<close>, with the
  class cached. For two mixins of which one has strictly fewer ancestors, all of them
  ancestors of the other, only the other is kept.
\<close>

theorem calculate_minimal_mixins_selects:
  assumes "wf_world w" and "calculate_minimal_mixins w r pl = Inr (w', refs)"
  shows "\<exists>ts order selected.
      import_mixins w (u_mixins r) = Inr (w', ts)
    \<and> (\<forall>t \<in> set ts. is_type (heap w' t))
    \<and> order = rev (sort_key (\<lambda>x. length (mro (heap w' x))) ts)
    \<and> mset order = mset ts
    \<and> sorted_wrt (\<lambda>a b. length (mro (heap w' b)) \<le> length (mro (heap w' a))) order
    \<and> selected = spec_select w' [] order
    \<and> list_all2 (\<lambda>x r. build w' (BType x) = Inr r) selected refs
    \<and> map u_type refs = map Some selected
    \<and> (\<forall>b c. (ts = [b, c] \<or> ts = [c, b])
            \<and> set (mro (heap w' b)) \<subset> set (mro (heap w' c)) \<longrightarrow> selected = [c])"
proof -
  from assms(2) obtain w1 ts where im: "import_mixins w (u_mixins r) = Inr (w1, ts)"
    by (cases "import_mixins w (u_mixins r)") (auto simp: calculate_minimal_mixins_def)
  with assms(2) have ty: "\<forall>t \<in> set ts. is_type (heap w1 t)"
    by (auto simp: calculate_minimal_mixins_def split: if_splits)
  let ?f = "\<lambda>x. length (mro (heap w1 x))"
  let ?order = "rev (sort_key ?f ts)"
  from assms(2) im ty have
    b: "build_all w1 (minimal_loop w1 {} [] ?order) = Inr refs" and w1: "w1 = w'"
    by (cases "build_all w1 (minimal_loop w1 {} [] ?order)";
        simp add: calculate_minimal_mixins_def)+
  have wf1: "wf_world w1"
    by (rule import_mixins_wf [OF im assms(1)])
  have "minimal_loop w1 {} [] ?order = spec_select w1 [] ?order"
    by (rule minimal_loop_spec [OF wf1]) (use ty in auto)
  with b have b': "build_all w1 (spec_select w1 [] ?order) = Inr refs" by simp
  note bl = build_all_Inr [OF b']
  note ord = descending_order [of ?f ts]
  have two: "\<forall>b c. (ts = [b, c] \<or> ts = [c, b])
            \<and> set (mro (heap w1 b)) \<subset> set (mro (heap w1 c)) \<longrightarrow> spec_select w1 [] ?order = [c]"
  proof (intro allI impI)
    fix b c
    assume a: "(ts = [b, c] \<or> ts = [c, b]) \<and> set (mro (heap w1 b)) \<subset> set (mro (heap w1 c))"
    with ty have tb: "is_type (heap w1 b)" and tc: "is_type (heap w1 c)" by auto
    from a have "card (set (mro (heap w1 b))) < card (set (mro (heap w1 c)))"
      by (intro psubset_card_mono) auto
    with wf_worldD(2) [OF wf1 tb] wf_worldD(2) [OF wf1 tc] have lt: "?f b < ?f c"
      by (simp add: distinct_card)
    from a two_mixins_order [of ?f b c, OF lt] have o: "?order = [c, b]" by auto
    from a have "set (mro (heap w1 b)) \<subseteq> set (mro (heap w1 c))" by auto
    with o show "spec_select w1 [] ?order = [c]" by simp
  qed
  from im ty ord bl two w1 show ?thesis
    by auto
qed

lemma ex_world_wf: "wf_world ex_world"
  unfolding wf_world_def
proof (intro allI impI)
  fix t assume ty: "is_type (heap ex_world t)"
  then have "t < 11"
    by (simp add: ex_defs split: if_splits)
  then have "t = 0 \<or> t = 1 \<or> t = 2 \<or> t = 3 \<or> t = 4 \<or> t = 5 \<or> t = 6 \<or> t = 7
      \<or> t = 8 \<or> t = 9 \<or> t = 10"
    by arith
  then consider "t = 0" | "t = 1" | "t = 2" | "t = 3" | "t = 4" | "t = 5" | "t = 6" | "t = 7"
    | "t = 8" | "t = 9" | "t = 10"
    by blast
  then show "t \<in> set (mro (heap ex_world t)) \<and> distinct (mro (heap ex_world t)) \<and>
        (\<forall>u \<in> set (mro (heap ex_world t)).
           u < next_oid ex_world \<and> is_type (heap ex_world u) \<and>
           set (mro (heap ex_world u)) \<subseteq> set (mro (heap ex_world t)))"
    using ty by cases (simp_all add: ex_defs)
qed

theorem calculate_minimal_mixins_selects_witness:
  "wf_world ex_world
   \<and> calculate_minimal_mixins ex_world ex_ref_two ex_plugins
       = Inr (ex_world\<lparr>import_log := [''pkg.mod'', ''pkg.mod'']\<rparr>,
              [Ref [''pkg.mod''] [''M2''] '':'' ''.'' [] (Some 5)])
   \<and> (\<exists>ts order selected.
      import_mixins ex_world (u_mixins ex_ref_two)
        = Inr (ex_world\<lparr>import_log := [''pkg.mod'', ''pkg.mod'']\<rparr>, ts)
    \<and> ts = [4, 5] \<and> order = [5, 4] \<and> selected = [5]
    \<and> (\<forall>t \<in> set ts. is_type (heap (ex_world\<lparr>import_log := [''pkg.mod'', ''pkg.mod'']\<rparr>) t))
    \<and> order = rev (sort_key
          (\<lambda>x. length (mro (heap (ex_world\<lparr>import_log := [''pkg.mod'', ''pkg.mod'']\<rparr>) x))) ts)
    \<and> selected = spec_select (ex_world\<lparr>import_log := [''pkg.mod'', ''pkg.mod'']\<rparr>) [] order
    \<and> map u_type [Ref [''pkg.mod''] [''M2''] '':'' ''.'' [] (Some 5)]
        = map Some selected)"
proof -
  let ?w' = "ex_world\<lparr>import_log := [''pkg.mod'', ''pkg.mod'']\<rparr>"
  let ?refs = "[Ref [''pkg.mod''] [''M2''] '':'' ''.'' [] (Some 5)]"
  have h2: "calculate_minimal_mixins ex_world ex_ref_two ex_plugins = Inr (?w', ?refs)"
    by (simp add: calculate_minimal_mixins_def ex_ref_two_def eval_defs ex_defs mk_ref_def
        IMPORT_SEP_def default_subseparator_def)
  have im: "import_mixins ex_world (u_mixins ex_ref_two) = Inr (?w', [4, 5])"
    by (simp add: ex_ref_two_def eval_defs ex_defs)
  from calculate_minimal_mixins_selects [OF ex_world_wf h2] obtain ts order selected where
    c: "import_mixins ex_world (u_mixins ex_ref_two) = Inr (?w', ts)"
      "\<forall>t \<in> set ts. is_type (heap ?w' t)"
      "order = rev (sort_key (\<lambda>x. length (mro (heap ?w' x))) ts)"
      "selected = spec_select ?w' [] order"
      "map u_type ?refs = map Some selected"
    by blast
  from c(1) im have ts: "ts = [4, 5]" by simp
  with c(3) have order: "order = [5, 4]" by (simp add: ex_defs)
  with c(4) have sel: "selected = [5]" by (simp add: ex_defs)
  from ex_world_wf h2 c ts order sel show ?thesis
    by blast
qed

end
